theory Spec2Isabelle
  imports Complex_Main "HOL-Library.Sublist" "HOL-Library.Log_Nat"
begin

section \<open>Python values\<close>

text \<open>
  A Python \<open>str\<close> is a sequence of Unicode code points, so \<open>len\<close> is \<open>length\<close> and
  \<open>+\<close> is \<open>@\<close>. String literals of the source are written with \<open>lit\<close>.
\<close>

type_synonym pystr = "nat list"

definition lit :: "string \<Rightarrow> pystr" where
  "lit s = map of_char s"

text \<open>The characters \<open>str.strip()\<close> removes when called without argument (\<open>str.isspace\<close>).\<close>

definition is_space :: "nat \<Rightarrow> bool" where
  "is_space c \<longleftrightarrow>
     (0x09 \<le> c \<and> c \<le> 0x0D) \<or> (0x1C \<le> c \<and> c \<le> 0x20) \<or> c = 0x85 \<or> c = 0xA0 \<or>
     c = 0x1680 \<or> (0x2000 \<le> c \<and> c \<le> 0x200A) \<or> c = 0x2028 \<or> c = 0x2029 \<or>
     c = 0x202F \<or> c = 0x205F \<or> c = 0x3000"

definition py_strip :: "pystr \<Rightarrow> pystr" where
  "py_strip s = rev (dropWhile is_space (rev (dropWhile is_space s)))"

text \<open>\<open>str(n)\<close> for a non-negative integer, as an f-string renders it.\<close>

fun str_nat :: "nat \<Rightarrow> pystr" where
  "str_nat n = (if n < 10 then [48 + n] else str_nat (n div 10) @ [48 + n mod 10])"

declare str_nat.simps [simp del]

text \<open>
  What \<open>response.json()\<close> can hand to the program. A float only matters here through its
  truth value, so it is kept as an exact rational or one of the three special values.
\<close>

datatype pyfloat = Finite rat | PosInf | NegInf | NaN

datatype json =
    JNull
  | JBool bool
  | JInt int
  | JFloat pyfloat
  | JStr pystr
  | JList "json list"
  | JObj "(pystr \<times> json) list"

text \<open>Python's truth value of an object (\<open>bool(v)\<close>).\<close>

fun truthy :: "json \<Rightarrow> bool" where
  "truthy JNull = False"
| "truthy (JBool b) = b"
| "truthy (JInt i) = (i \<noteq> 0)"
| "truthy (JFloat f) = (f \<noteq> Finite 0)"
| "truthy (JStr s) = (s \<noteq> [])"
| "truthy (JList xs) = (xs \<noteq> [])"
| "truthy (JObj kvs) = (kvs \<noteq> [])"

fun type_name :: "json \<Rightarrow> pystr" where
  "type_name JNull = lit ''NoneType''"
| "type_name (JBool b) = lit ''bool''"
| "type_name (JInt i) = lit ''int''"
| "type_name (JFloat f) = lit ''float''"
| "type_name (JStr s) = lit ''str''"
| "type_name (JList xs) = lit ''list''"
| "type_name (JObj kvs) = lit ''dict''"

text \<open>
  Exceptions, with their message (\<open>str(e)\<close>). The source tells
  \<open>requests.exceptions.RequestException\<close> (and its subclasses) from every other
  \<open>Exception\<close>.
\<close>

datatype exn =
    RequestException pystr
  | AttributeError pystr
  | TypeError pystr
  | OtherException pystr

fun exn_msg :: "exn \<Rightarrow> pystr" where
  "exn_msg (RequestException m) = m"
| "exn_msg (AttributeError m) = m"
| "exn_msg (TypeError m) = m"
| "exn_msg (OtherException m) = m"

definition quoted :: "pystr \<Rightarrow> pystr" where
  "quoted s = [39] @ s @ [39]"

definition no_attribute :: "json \<Rightarrow> string \<Rightarrow> exn" where
  "no_attribute v a =
     AttributeError (quoted (type_name v) @ lit '' object has no attribute '' @ quoted (lit a))"

text \<open>\<open>d.get(k)\<close>: the value, \<open>None\<close> for a missing key, AttributeError when \<open>d\<close> is no dict.\<close>

definition dict_get :: "json \<Rightarrow> pystr \<Rightarrow> exn + json" where
  "dict_get d k =
     (case d of
        JObj kvs \<Rightarrow> Inr (case map_of kvs k of None \<Rightarrow> JNull | Some v \<Rightarrow> v)
      | _ \<Rightarrow> Inl (no_attribute d ''get''))"

section \<open>The outside world\<close>

text \<open>
  Everything the program does to the outside is recorded, in order, in a trace: log
  records, Streamlit widgets, progress bar updates and network requests. The trace is
  the state that the functions below pass along.
\<close>

datatype level = WARNING | ERROR

datatype request =
    SearchGet pystr pystr pystr int
      \<comment> \<open>\<open>requests.get\<close> on the ranking API: API URL, bearer token, keyword, top_positions\<close>
  | PageGet pystr
      \<comment> \<open>\<open>requests.get\<close> on a web page\<close>
  | ChatCreate pystr pystr pystr bool
      \<comment> \<open>\<open>client.chat.completions.create\<close>: API key, system prompt, user prompt, stream\<close>

datatype status_state = St_running | St_complete | St_error

datatype widget =
    Write_url json                \<comment> \<open>\<open>st.write(url)\<close>\<close>
  | Write_processing nat nat json \<comment> \<open>\<open>st.write(f"**Processing URL {idx}/{total_urls}:** {url}")\<close>\<close>
  | Info_fetching nat             \<comment> \<open>\<open>st.info(f"Fetching content from URL {idx}...")\<close>\<close>
  | Warning_fetch_failed nat      \<comment> \<open>\<open>st.warning(f"URL {idx}: Content fetch failed.")\<close>\<close>
  | Info_summarizing nat          \<comment> \<open>\<open>st.info(f"Summarizing content from URL {idx}...")\<close>\<close>
  | Success_summary nat           \<comment> \<open>\<open>st.success(f"URL {idx}: Summary generated successfully.")\<close>\<close>
  | Write_summary nat pystr       \<comment> \<open>\<open>st.write(f"**Summary for URL {idx}:**\n{summary}")\<close>\<close>
  | Warning_summary_failed nat    \<comment> \<open>\<open>st.warning(f"URL {idx}: Summarization failed.")\<close>\<close>
  | Error_processing nat exn      \<comment> \<open>\<open>st.error(f"Error processing URL {idx}: {e}")\<close>\<close>
  | Warning_too_short             \<comment> \<open>\<open>st.warning("Extracted content is too short to be meaningful.")\<close>\<close>
  | Warning_need_content          \<comment> \<open>\<open>st.warning("Please provide content before running analysis.")\<close>\<close>
  | Warning_no_urls               \<comment> \<open>\<open>st.warning("No URLs found for the given keyword.")\<close>\<close>
  | Error_unexpected exn          \<comment> \<open>\<open>st.error(f"An unexpected error occurred: {e}")\<close>\<close>
  | Status_open                   \<comment> \<open>\<open>st.status("Running Content Analysis", expanded=True)\<close>\<close>
  | Status_update pystr status_state \<comment> \<open>\<open>status.update(label=..., state=...)\<close>\<close>
  | Progress_new int              \<comment> \<open>\<open>st.progress(0)\<close>\<close>

datatype event =
    Log level pystr   \<comment> \<open>\<open>logging.warning\<close>, \<open>logging.error\<close>\<close>
  | Ui widget
  | Progress int      \<comment> \<open>\<open>progress_bar.progress(value)\<close>\<close>
  | NetCall request

type_synonym trace = "event list"

definition net_calls :: "trace \<Rightarrow> request list" where
  "net_calls tr = concat (map (\<lambda>ev. case ev of NetCall r \<Rightarrow> [r] | _ \<Rightarrow> []) tr)"

definition progress_values :: "trace \<Rightarrow> int list" where
  "progress_values tr = concat (map (\<lambda>ev. case ev of Progress p \<Rightarrow> [p] | _ \<Rightarrow> []) tr)"

text \<open>An HTTP response as \<open>requests\<close> presents it.\<close>

record http_response =
  status_code :: nat
  reason :: pystr
  resp_url :: pystr
  body_text :: pystr            \<comment> \<open>\<open>response.text\<close>\<close>
  body_json :: "pystr + json"   \<comment> \<open>\<open>response.json()\<close>: the value, or the JSONDecodeError message\<close>

text \<open>
  A completed chat response: the \<open>message.content\<close> of each choice (\<open>None\<close> when the
  message has no content). A streamed response: its fragments, read once by the caller.
\<close>

record completion =
  choices :: "pystr option list"

datatype stream = Stream "pystr list"

text \<open>
  The answers of the outside world. An answer may depend on everything that happened
  before, that is on the trace at the moment of the call, so the same request can
  succeed once and fail later. A network call returns or raises (any exception); what
  the language-model library returns is \<open>None\<close> or a truthy object. The two HTML
  library steps are functions of the markup: \<open>BeautifulSoup(html).body\<close>, and the removal
  of the non-content tags followed by \<open>html2text\<close>.

  Calls that send nothing over the network return normally: \<open>logging\<close>, the Streamlit
  widgets, the HTML library and the construction of the \<open>OpenAI\<close> client, which is given
  the configured key.
\<close>

record env =
  http_get :: "trace \<Rightarrow> request \<Rightarrow> exn + http_response"
  chat_create :: "trace \<Rightarrow> request \<Rightarrow> exn + completion option"
  chat_stream :: "trace \<Rightarrow> request \<Rightarrow> exn + stream option"
  soup_body :: "pystr \<Rightarrow> pystr option"
  body_to_text :: "pystr \<Rightarrow> pystr"

text \<open>
  Modelled from the spec: \<open>utils/config.py\<close> is not part of the sources. The spec's
  configuration surface holds the provider base URL, the authorization token, the API
  key and the number of competitor URLs. The three credentials are strings.
\<close>

record config =
  AHREFS_API_URL :: pystr
  AHREFS_AUTH_TOKEN :: pystr
  OPENAI_API_KEY :: pystr
  NUMBER_OF_SEARCHES :: int

section \<open>APIClient.fetch_top_urls\<close>

text \<open>\<open>response.raise_for_status()\<close> raises HTTPError, a RequestException, on 4xx and 5xx.\<close>

definition raise_for_status :: "http_response \<Rightarrow> exn option" where
  "raise_for_status r =
     (if 400 \<le> status_code r \<and> status_code r < 500 then
        Some (RequestException (str_nat (status_code r) @ lit '' Client Error: '' @ reason r
                                @ lit '' for url: '' @ resp_url r))
      else if 500 \<le> status_code r \<and> status_code r < 600 then
        Some (RequestException (str_nat (status_code r) @ lit '' Server Error: '' @ reason r
                                @ lit '' for url: '' @ resp_url r))
      else None)"

text \<open>
  The list comprehension \<open>[item["url"] for item in positions if item.get("url")]\<close>:
  \<open>item.get\<close> raises on the first item that is no dict.
\<close>

fun collect_urls :: "json list \<Rightarrow> exn + json list" where
  "collect_urls [] = Inr []"
| "collect_urls (item # items) =
     (case dict_get item (lit ''url'') of
        Inl e \<Rightarrow> Inl e
      | Inr v \<Rightarrow>
          (case collect_urls items of
             Inl e \<Rightarrow> Inl e
           | Inr us \<Rightarrow> Inr (if truthy v then v # us else us)))"

text \<open>Iterating a truthy value that is no list: the first step of the comprehension raises.\<close>

definition iterate_positions :: "json \<Rightarrow> exn + json list" where
  "iterate_positions p =
     (case p of
        JList items \<Rightarrow> collect_urls items
      | JStr s \<Rightarrow> Inl (no_attribute (JStr s) ''get'')
      | JObj kvs \<Rightarrow> Inl (no_attribute (JStr []) ''get'')
      | _ \<Rightarrow> Inl (TypeError (quoted (type_name p) @ lit '' object is not iterable'')))"

text \<open>The \<open>except requests.exceptions.RequestException\<close> clause; anything else propagates.\<close>

definition search_except :: "trace \<Rightarrow> exn \<Rightarrow> (exn + json list) \<times> trace" where
  "search_except tr e =
     (case e of
        RequestException m \<Rightarrow> (Inr [], tr @ [Log ERROR (lit ''Ahrefs API Error: '' @ m)])
      | _ \<Rightarrow> (Inl e, tr))"

definition fetch_top_urls ::
  "env \<Rightarrow> config \<Rightarrow> pystr \<Rightarrow> int \<Rightarrow> trace \<Rightarrow> (exn + json list) \<times> trace" where
  "fetch_top_urls E cfg kw num_searches tr =
     (if py_strip kw = [] then
        (Inr [], tr @ [Log WARNING (lit ''Please enter a valid keyword.'')])
      else
        let req = SearchGet (AHREFS_API_URL cfg) (AHREFS_AUTH_TOKEN cfg) kw num_searches;
            tr1 = tr @ [NetCall req]
        in case http_get E tr req of
             Inl e \<Rightarrow> search_except tr1 e
           | Inr response \<Rightarrow>
               (case raise_for_status response of
                  Some e \<Rightarrow> search_except tr1 e
                | None \<Rightarrow>
                    (case body_json response of
                       Inl m \<Rightarrow> search_except tr1 (RequestException m)
                     | Inr results \<Rightarrow>
                         (case dict_get results (lit ''positions'') of
                            Inl e \<Rightarrow> search_except tr1 e
                          | Inr p \<Rightarrow>
                              if \<not> truthy p then
                                (Inr [], tr1 @ [Log WARNING
                                   (lit ''No search results found for the keyword: '' @ kw)])
                              else
                                (case iterate_positions p of
                                   Inl e \<Rightarrow> search_except tr1 e
                                 | Inr urls \<Rightarrow> (Inr urls, tr1))))))"

section \<open>APIClient.fetch_webpage_content\<close>

text \<open>The \<open>except requests.exceptions.RequestException\<close> clause; anything else propagates.\<close>

definition page_except :: "trace \<Rightarrow> exn \<Rightarrow> (exn + pystr option) \<times> trace" where
  "page_except tr e =
     (case e of
        RequestException m \<Rightarrow> (Inr None, tr @ [Log ERROR (lit ''Webpage Fetch Error: '' @ m)])
      | _ \<Rightarrow> (Inl e, tr))"

text \<open>
  The URL is whatever \<open>fetch_top_urls\<close> found in the provider's payload (a \<open>str\<close> in every
  documented payload) or what the user typed. \<open>not url or not url.strip()\<close> raises
  AttributeError on a truthy value that is no \<open>str\<close>.
\<close>

definition fetch_webpage_content ::
  "env \<Rightarrow> json \<Rightarrow> trace \<Rightarrow> (exn + pystr option) \<times> trace" where
  "fetch_webpage_content E u tr =
     (case u of
        JStr s \<Rightarrow>
          if s = [] \<or> py_strip s = [] then
            (Inr None, tr @ [Log WARNING (lit ''No URL provided.'')])
          else
            let tr1 = tr @ [NetCall (PageGet s)]
            in case http_get E tr (PageGet s) of
                 Inl e \<Rightarrow> page_except tr1 e
               | Inr response \<Rightarrow>
                   (case raise_for_status response of
                      Some e \<Rightarrow> page_except tr1 e
                    | None \<Rightarrow>
                        (case soup_body E (body_text response) of
                           None \<Rightarrow>
                             (Inr None,
                              tr1 @ [Ui Warning_too_short,
                                     Log WARNING (lit ''No body content found in the webpage.'')])
                         | Some body_content \<Rightarrow>
                             let text_content = body_to_text E body_content
                             in if length (py_strip text_content) < 200 then
                                  (Inr None,
                                   tr1 @ [Log WARNING
                                            (lit ''Extracted content is too short to be meaningful.''),
                                          Ui Warning_too_short])
                                else (Inr (Some text_content), tr1)))
      | _ \<Rightarrow>
          if \<not> truthy u then (Inr None, tr @ [Log WARNING (lit ''No URL provided.'')])
          else (Inl (no_attribute u ''strip''), tr))"

section \<open>APIClient.summarize_content_with_openai\<close>

definition nl :: pystr where
  "nl = [10]"

definition summary_system_prompt :: pystr where
  "summary_system_prompt =
     lit ''You are a highly skilled summarization assistant. Your task is to distill ''
     @ lit ''the essence of the provided content into a concise summary, highlighting ''
     @ lit ''the main points and key insights. Ensure the summary is no more than 200 words ''
     @ lit ''and maintains the original context and intent.''"

definition summary_prompt :: "pystr \<Rightarrow> pystr" where
  "summary_prompt t =
     summary_system_prompt @ nl @ nl @ lit ''Content to summarize:'' @ nl @ t @ nl @ nl"

text \<open>
  The whole provider call sits in \<open>try ... except Exception\<close>, and so does
  \<open>response.choices[0].message.content.strip()\<close>, which raises AttributeError when the
  message has no content.
\<close>

definition summary_except :: "trace \<Rightarrow> exn \<Rightarrow> (exn + pystr option) \<times> trace" where
  "summary_except tr e =
     (Inr None, tr @ [Log ERROR (lit ''OpenAI Summarization Error: '' @ exn_msg e)])"

definition summarize_content_with_openai ::
  "env \<Rightarrow> config \<Rightarrow> pystr \<Rightarrow> trace \<Rightarrow> (exn + pystr option) \<times> trace" where
  "summarize_content_with_openai E cfg t tr =
     (if t = [] \<or> py_strip t = [] then (Inr None, tr)
      else
        let req = ChatCreate (OPENAI_API_KEY cfg) summary_system_prompt (summary_prompt t) False;
            tr1 = tr @ [NetCall req]
        in case chat_create E tr req of
             Inl e \<Rightarrow> summary_except tr1 e
           | Inr None \<Rightarrow>
               (Inr None, tr1 @ [Log ERROR (lit ''Failed to generate summary from OpenAI.'')])
           | Inr (Some response) \<Rightarrow>
               (case choices response of
                  [] \<Rightarrow>
                    (Inr None,
                     tr1 @ [Log ERROR (lit ''Failed to generate summary from OpenAI.'')])
                | None # _ \<Rightarrow> summary_except tr1 (no_attribute JNull ''strip'')
                | Some c # _ \<Rightarrow> (Inr (Some (py_strip c)), tr1)))"

section \<open>APIClient.analyze_content_with_openai\<close>

text \<open>
  What the function can return: the dict \<open>{"error": ...}\<close>, a plain string, the stream
  of the provider, or \<open>None\<close> when control falls off the end of the function.
\<close>

datatype analysis_result =
    ErrorDict pystr
  | ErrorStr pystr
  | StreamResult stream
  | NoneResult

definition analysis_system_prompt :: pystr where
  "analysis_system_prompt =
     lit ''You are an expert content editor and SEO specialist. Your role is to provide ''
     @ lit ''a detailed analysis of the given content, offering actionable optimization ''
     @ lit ''suggestions. Consider the focus keyword and competitor content to enhance ''
     @ lit ''the analysis.''"

definition competitor_block :: "nat \<Rightarrow> pystr \<Rightarrow> pystr" where
  "competitor_block i summary =
     lit ''Competitor '' @ str_nat i @ lit '' Summary:'' @ nl @ summary @ nl @ nl"

text \<open>The loop \<open>for i, summary in enumerate(competitor_summaries, 1): prompt += ...\<close>.\<close>

fun add_summaries :: "nat \<Rightarrow> pystr list \<Rightarrow> pystr \<Rightarrow> pystr" where
  "add_summaries i [] prompt = prompt"
| "add_summaries i (summary # rest) prompt =
     add_summaries (Suc i) rest (prompt @ competitor_block i summary)"

definition analysis_sections :: "pystr list" where
  "analysis_sections =
     [lit ''1. Overall content strengths and weaknesses'',
      lit ''2. Keyword optimization suggestions'',
      lit ''3. Readability and structure improvements'',
      lit ''4. Recommended content revisions'',
      lit ''5. SEO enhancement strategies'']"

definition analysis_prompt :: "pystr \<Rightarrow> pystr \<Rightarrow> pystr list \<Rightarrow> pystr" where
  "analysis_prompt t kw competitor_summaries =
     (let p0 = lit ''Content to analyze:'' @ nl @ t @ nl @ nl
                 @ lit ''Focus keyword: '' @ kw @ nl @ nl;
          p1 = (if competitor_summaries \<noteq> [] then
                  add_summaries 1 competitor_summaries
                    (p0 @ lit ''Competitor content summaries (for context):'' @ nl)
                else p0)
      in p1 @ lit ''Your analysis should include:'' @ nl
            @ analysis_sections ! 0 @ nl
            @ analysis_sections ! 1 @ nl
            @ analysis_sections ! 2 @ nl
            @ analysis_sections ! 3 @ nl
            @ analysis_sections ! 4)"

definition analyze_content_with_openai ::
  "env \<Rightarrow> config \<Rightarrow> pystr \<Rightarrow> pystr \<Rightarrow> pystr list \<Rightarrow> trace
     \<Rightarrow> (exn + analysis_result) \<times> trace" where
  "analyze_content_with_openai E cfg t kw competitor_summaries tr =
     (if t = [] \<or> py_strip t = [] then
        (Inr (ErrorDict (lit ''No text provided for analysis.'')), tr)
      else
        let req = ChatCreate (OPENAI_API_KEY cfg) analysis_system_prompt
                    (analysis_prompt t kw competitor_summaries) True;
            tr1 = tr @ [NetCall req]
        in case chat_stream E tr req of
             Inl e \<Rightarrow>
               (Inr (ErrorStr (lit ''error: '' @ exn_msg e)),
                tr1 @ [Log ERROR (lit ''OpenAI Analysis Error: '' @ exn_msg e)])
           | Inr (Some response) \<Rightarrow> (Inr (StreamResult response), tr1)
           | Inr None \<Rightarrow> (Inr NoneResult, tr1))"

section \<open>DataProcessor.get_competitor_summaries\<close>

subsection \<open>Python floats\<close>

text \<open>
  The progress value is computed in floating point: \<open>50 / total_urls\<close> is Python's true
  division of two integers (the exact quotient, rounded once), the product with \<open>idx\<close>
  converts \<open>idx\<close> to a float and rounds the exact product, and \<open>int\<close> truncates towards
  zero. A float is an IEEE 754 binary64 number: 53 significant bits, least exponent
  \<open>-1074\<close>, rounding to the nearest value with ties to the even significand. Finite
  floats are modelled by the rationals they denote. Overflow (beyond \<open>2^1024\<close>) is left
  out: it needs a list of more than \<open>2^63\<close> elements, which Python cannot build.
\<close>

definition round_half_even :: "rat \<Rightarrow> int" where
  "round_half_even x =
     (let f = \<lfloor>x\<rfloor>; d = x - of_int f
      in if d < 1 / 2 then f else if 1 / 2 < d then f + 1 else if even f then f else f + 1)"

text \<open>For positive \<open>x\<close>, the exponent \<open>k\<close> with \<open>2^k \<le> x < 2^(k+1)\<close>.\<close>

definition ilog2 :: "rat \<Rightarrow> int" where
  "ilog2 x = (if 1 \<le> x then bitlen \<lfloor>x\<rfloor> - 1 else - bitlen (\<lceil>1 / x\<rceil> - 1))"

definition round64 :: "rat \<Rightarrow> rat" where
  "round64 x =
     (if x = 0 then 0
      else let e = max (ilog2 \<bar>x\<bar> - 52) (- 1074)
           in of_int (round_half_even (x / 2 powi e)) * 2 powi e)"

definition py_int :: "rat \<Rightarrow> int" where
  "py_int x = (if 0 \<le> x then \<lfloor>x\<rfloor> else \<lceil>x\<rceil>)"

text \<open>\<open>25 + int((50 / total_urls) * idx)\<close>, evaluated only inside the loop, where \<open>total_urls > 0\<close>.\<close>

definition progress_percent :: "nat \<Rightarrow> nat \<Rightarrow> int" where
  "progress_percent total_urls idx =
     25 + py_int (round64 (round64 (50 / of_nat total_urls) * round64 (of_nat idx)))"

subsection \<open>The loop\<close>

text \<open>\<open>progress_bar.progress(min(progress, 100))\<close>, the last statement of the loop body.\<close>

definition report_progress :: "nat \<Rightarrow> nat \<Rightarrow> trace \<Rightarrow> trace" where
  "report_progress total_urls idx tr = tr @ [Progress (min (progress_percent total_urls idx) 100)]"

text \<open>
  One pass through the loop body, giving the string appended to \<open>summaries\<close>. The first
  \<open>st.write\<close> stands before the \<open>try\<close>; \<open>except Exception\<close> catches whatever the two calls
  raise. The branch of a failed fetch ends in \<open>continue\<close>, so it does not reach the
  progress bar update; every other branch does.
\<close>

definition process_url :: "env \<Rightarrow> config \<Rightarrow> nat \<Rightarrow> nat \<Rightarrow> json \<Rightarrow> trace \<Rightarrow> pystr \<times> trace" where
  "process_url E cfg total_urls idx u tr =
     (let tr0 = tr @ [Ui (Write_processing idx total_urls u), Ui (Info_fetching idx)]
      in case fetch_webpage_content E u tr0 of
           (Inl e, tr1) \<Rightarrow>
             ([], report_progress total_urls idx (tr1 @ [Ui (Error_processing idx e)]))
         | (Inr None, tr1) \<Rightarrow> ([], tr1 @ [Ui (Warning_fetch_failed idx)])
         | (Inr (Some c), tr1) \<Rightarrow>
             if c = [] then ([], tr1 @ [Ui (Warning_fetch_failed idx)])
             else
               (case summarize_content_with_openai E cfg c (tr1 @ [Ui (Info_summarizing idx)]) of
                  (Inl e, tr2) \<Rightarrow>
                    ([], report_progress total_urls idx (tr2 @ [Ui (Error_processing idx e)]))
                | (Inr None, tr2) \<Rightarrow>
                    ([], report_progress total_urls idx (tr2 @ [Ui (Warning_summary_failed idx)]))
                | (Inr (Some summary), tr2) \<Rightarrow>
                    if summary \<noteq> [] then
                      (summary,
                       report_progress total_urls idx
                         (tr2 @ [Ui (Success_summary idx), Ui (Write_summary idx summary)]))
                    else
                      ([], report_progress total_urls idx
                             (tr2 @ [Ui (Warning_summary_failed idx)]))))"

text \<open>\<open>for idx, url in enumerate(urls, 1)\<close>, with the list \<open>summaries\<close> built so far.\<close>

fun summaries_loop ::
  "env \<Rightarrow> config \<Rightarrow> nat \<Rightarrow> nat \<Rightarrow> json list \<Rightarrow> pystr list \<Rightarrow> trace \<Rightarrow> pystr list \<times> trace" where
  "summaries_loop E cfg total_urls idx [] summaries tr = (summaries, tr)"
| "summaries_loop E cfg total_urls idx (u # rest) summaries tr =
     (case process_url E cfg total_urls idx u tr of
        (s, tr') \<Rightarrow> summaries_loop E cfg total_urls (Suc idx) rest (summaries @ [s]) tr')"

definition get_competitor_summaries ::
  "env \<Rightarrow> config \<Rightarrow> json list \<Rightarrow> trace \<Rightarrow> pystr list \<times> trace" where
  "get_competitor_summaries E cfg urls tr = summaries_loop E cfg (length urls) 1 urls [] tr"

section \<open>run_content_analysis\<close>

text \<open>
  \<open>st.session_state\<close>: the four keys that \<open>initialize_session_state\<close> creates, and the key
  \<open>'result'\<close>, which exists only once it has been assigned (\<open>None\<close> here: no such key).
\<close>

record session_state =
  user_content :: pystr
  keyword :: pystr
  content_input_option :: pystr
  analysis_result :: "analysis_result option"
  result :: "analysis_result option"

text \<open>The \<open>except Exception\<close> clause at the top of the run.\<close>

definition run_except :: "session_state \<Rightarrow> trace \<Rightarrow> exn \<Rightarrow> session_state \<times> trace" where
  "run_except ss tr e =
     (ss, tr @ [Ui (Error_unexpected e), Ui (Status_update (lit ''Analysis Failed'') St_error)])"

definition run_content_analysis ::
  "env \<Rightarrow> config \<Rightarrow> session_state \<Rightarrow> trace \<Rightarrow> session_state \<times> trace" where
  "run_content_analysis E cfg ss tr =
     (if user_content ss = [] then (ss, tr @ [Ui Warning_need_content])
      else
        let tr0 = tr @ [Ui Status_open, Ui (Status_update (lit ''Fetching Top URLs'') St_running)]
        in case fetch_top_urls E cfg (keyword ss) (NUMBER_OF_SEARCHES cfg) tr0 of
             (Inl e, tr1) \<Rightarrow> run_except ss tr1 e
           | (Inr urls, tr1) \<Rightarrow>
               if urls = [] then
                 (ss, tr1 @ [Ui Warning_no_urls,
                             Ui (Status_update (lit ''URL Fetching Failed'') St_error)])
               else
                 let tr2 = tr1 @ map (\<lambda>u. Ui (Write_url u)) urls
                             @ [Ui (Status_update (lit ''Analyzing Competitor Content'') St_running),
                                Ui (Progress_new 0)]
                 in case get_competitor_summaries E cfg urls tr2 of
                      (competitor_summaries, tr3) \<Rightarrow>
                        (case analyze_content_with_openai E cfg (user_content ss) (keyword ss)
                                competitor_summaries
                                (tr3 @ [Ui (Status_update
                                             (lit ''Generating Optimization Suggestions'')
                                             St_running)]) of
                           (Inl e, tr4) \<Rightarrow> run_except ss tr4 e
                         | (Inr r, tr4) \<Rightarrow>
                             (ss\<lparr>result := Some r\<rparr>,
                              tr4 @ [Ui (Status_update (lit ''Analysis Complete'') St_complete)])))"

section \<open>Notions used by the properties\<close>

text \<open>\<open>item.get("url")\<close> for an item of the \<open>positions\<close> list that is a dict.\<close>

definition url_field :: "json \<Rightarrow> json" where
  "url_field item = (case dict_get item (lit ''url'') of Inr v \<Rightarrow> v | Inl e \<Rightarrow> JNull)"

definition is_dict :: "json \<Rightarrow> bool" where
  "is_dict v = (case v of JObj kvs \<Rightarrow> True | _ \<Rightarrow> False)"

text \<open>The request that \<open>fetch_top_urls\<close> sends for a keyword and a count.\<close>

definition search_request :: "config \<Rightarrow> pystr \<Rightarrow> int \<Rightarrow> request" where
  "search_request cfg kw n = SearchGet (AHREFS_API_URL cfg) (AHREFS_AUTH_TOKEN cfg) kw n"

text \<open>The requests that the summarizer and the analyzer send.\<close>

definition summary_request :: "config \<Rightarrow> pystr \<Rightarrow> request" where
  "summary_request cfg t =
     ChatCreate (OPENAI_API_KEY cfg) summary_system_prompt (summary_prompt t) False"

definition analysis_request :: "config \<Rightarrow> pystr \<Rightarrow> pystr \<Rightarrow> pystr list \<Rightarrow> request" where
  "analysis_request cfg t kw competitor_summaries =
     ChatCreate (OPENAI_API_KEY cfg) analysis_system_prompt
       (analysis_prompt t kw competitor_summaries) True"

text \<open>
  A call failed, as the loop of \<open>get_competitor_summaries\<close> sees it: it raised, or what
  it returned is falsy.
\<close>

definition fetch_failed :: "env \<Rightarrow> json \<Rightarrow> trace \<Rightarrow> bool" where
  "fetch_failed E u tr =
     (case fst (fetch_webpage_content E u tr) of
        Inl e \<Rightarrow> True | Inr None \<Rightarrow> True | Inr (Some c) \<Rightarrow> c = [])"

definition summarize_failed :: "env \<Rightarrow> config \<Rightarrow> pystr \<Rightarrow> trace \<Rightarrow> bool" where
  "summarize_failed E cfg c tr =
     (case fst (summarize_content_with_openai E cfg c tr) of
        Inl e \<Rightarrow> True | Inr None \<Rightarrow> True | Inr (Some s) \<Rightarrow> s = [])"

text \<open>
  The trace when the loop reaches position \<open>i\<close> (counted from 0) of the URL list, and the
  trace at which it then calls \<open>fetch_webpage_content\<close>.
\<close>

definition trace_before :: "env \<Rightarrow> config \<Rightarrow> json list \<Rightarrow> trace \<Rightarrow> nat \<Rightarrow> trace" where
  "trace_before E cfg urls tr i = snd (summaries_loop E cfg (length urls) 1 (take i urls) [] tr)"

definition trace_at_fetch :: "env \<Rightarrow> config \<Rightarrow> json list \<Rightarrow> trace \<Rightarrow> nat \<Rightarrow> trace" where
  "trace_at_fetch E cfg urls tr i =
     trace_before E cfg urls tr i
       @ [Ui (Write_processing (Suc i) (length urls) (urls ! i)), Ui (Info_fetching (Suc i))]"

text \<open>The trace at which \<open>run_content_analysis\<close> calls \<open>fetch_top_urls\<close>.\<close>

definition trace_at_search :: "trace \<Rightarrow> trace" where
  "trace_at_search tr =
     tr @ [Ui Status_open, Ui (Status_update (lit ''Fetching Top URLs'') St_running)]"

definition stale_report :: analysis_result where
  "stale_report = StreamResult (Stream [lit ''report of an earlier run''])"

text \<open>The values \<open>min(25 + int((50 / T) * idx), 100)\<close> for \<open>idx = 1, ..., T\<close>.\<close>

definition progress_schedule :: "nat \<Rightarrow> int list" where
  "progress_schedule T = map (\<lambda>idx. min (progress_percent T idx) 100) [1..<Suc T]"

text \<open>What one call of \<open>get_competitor_summaries\<close> reports to the progress bar, in order.\<close>

definition reported_progress :: "env \<Rightarrow> config \<Rightarrow> json list \<Rightarrow> trace \<Rightarrow> int list" where
  "reported_progress E cfg urls tr =
     drop (length (progress_values tr))
       (progress_values (snd (get_competitor_summaries E cfg urls tr)))"

section \<open>A concrete outside world\<close>

text \<open>
  A small world on which the functions can be run: a ranking API that knows one keyword,
  three competitor pages of which the second cannot be reached, a page with too little
  text, a page without body, and a language model that answers.
\<close>

definition url_a :: pystr where "url_a = lit ''https://a.example''"
definition url_b :: pystr where "url_b = lit ''https://b.example''"
definition url_c :: pystr where "url_c = lit ''https://c.example''"
definition url_short :: pystr where "url_short = lit ''https://short.example''"
definition url_nobody :: pystr where "url_nobody = lit ''https://nobody.example''"

definition long_text :: pystr where
  "long_text = 65 # replicate 198 98 @ [67]"

definition ok_response :: "pystr \<Rightarrow> pystr + json \<Rightarrow> http_response" where
  "ok_response html j =
     \<lparr>status_code = 200, reason = lit ''OK'', resp_url = [], body_text = html, body_json = j\<rparr>"

definition server_error :: http_response where
  "server_error =
     \<lparr>status_code = 500, reason = lit ''Internal Server Error'', resp_url = [],
      body_text = [], body_json = Inl (lit ''Expecting value'')\<rparr>"

definition demo_payload :: json where
  "demo_payload =
     JObj [(lit ''positions'',
            JList [JObj [(lit ''url'', JStr url_a)],
                   JObj [(lit ''title'', JStr (lit ''no url here''))],
                   JObj [(lit ''url'', JStr url_b)],
                   JObj [(lit ''url'', JStr [])],
                   JObj [(lit ''url'', JStr url_c)]])]"

definition demo_http :: "trace \<Rightarrow> request \<Rightarrow> exn + http_response" where
  "demo_http tr req =
     (case req of
        SearchGet api token kw n \<Rightarrow>
          if kw = lit ''best laptops 2024'' then Inr (ok_response [] (Inr demo_payload))
          else if kw = lit ''down'' then Inl (RequestException (lit ''connection refused''))
          else if kw = lit ''broken'' then Inr (ok_response [] (Inr (JList [])))
          else if kw = lit ''http 500'' then Inr server_error
          else Inr (ok_response [] (Inr (JObj [])))
      | PageGet u \<Rightarrow>
          if u = url_b then Inl (RequestException (lit ''timed out''))
          else Inr (ok_response u (Inl (lit ''Expecting value'')))
      | ChatCreate k sp p st \<Rightarrow> Inl (OtherException (lit ''not an HTTP request'')))"

definition demo_world :: env where
  "demo_world =
     \<lparr>http_get = demo_http,
      chat_create = (\<lambda>tr req. Inr (Some \<lparr>choices = [Some (lit '' A digest. '')]\<rparr>)),
      chat_stream = (\<lambda>tr req. Inr (Some (Stream [lit ''Looks '', lit ''good.'']))),
      soup_body = (\<lambda>html. if html = url_nobody then None else Some html),
      body_to_text = (\<lambda>b. if b = url_short then lit ''too short'' else long_text)\<rparr>"

definition demo_config :: config where
  "demo_config =
     \<lparr>AHREFS_API_URL = lit ''https://api.example/serp'', AHREFS_AUTH_TOKEN = lit ''token'',
      OPENAI_API_KEY = lit ''key'', NUMBER_OF_SEARCHES = 3\<rparr>"

definition demo_urls :: "json list" where
  "demo_urls = [JStr url_a, JStr url_b, JStr url_c]"

definition demo_session :: session_state where
  "demo_session =
     \<lparr>user_content = lit ''My text about laptops.'', keyword = lit ''best laptops 2024'',
      content_input_option = lit ''Paste Text'', analysis_result = None, result = None\<rparr>"

section \<open>Properties\<close>

subsection \<open>Auxiliary facts\<close>

lemma py_strip_empty_iff: "py_strip s = [] \<longleftrightarrow> (\<forall>c \<in> set s. is_space c)"
proof -
  have "(\<forall>c \<in> set (dropWhile is_space s). is_space c) \<longleftrightarrow> dropWhile is_space s = []"
    by (metis dropWhile_eq_Nil_conv dropWhile_idem)
  then show ?thesis by (simp add: py_strip_def dropWhile_eq_Nil_conv)
qed

lemma py_strip_keep:
  assumes "s \<noteq> []" "\<not> is_space (hd s)" "\<not> is_space (last s)"
  shows "py_strip s = s"
proof -
  from assms have a: "dropWhile is_space s = s" by (cases s) auto
  from assms have "rev s \<noteq> []" "\<not> is_space (hd (rev s))" by (auto simp: hd_rev)
  then have "dropWhile is_space (rev s) = rev s" by (cases "rev s") auto
  with a show ?thesis by (simp add: py_strip_def)
qed

lemma length_py_strip: "length (py_strip s) \<le> length s"
proof -
  have "length (dropWhile is_space (rev (dropWhile is_space s)))
          \<le> length (rev (dropWhile is_space s))"
    by (rule length_dropWhile_le)
  also have "\<dots> \<le> length s" by (simp add: length_dropWhile_le)
  finally show ?thesis by (simp add: py_strip_def)
qed

lemma short_strip: "length s < 200 \<Longrightarrow> length (py_strip s) < 200"
  using length_py_strip[of s] by simp

lemma raise_for_status_request:
  "raise_for_status r = Some e \<Longrightarrow> \<exists>m. e = RequestException m"
  by (auto simp: raise_for_status_def split: if_splits)

text \<open>The loop: the accumulator is a prefix of the outcome and does not steer the trace.\<close>

lemma loop_fst_acc:
  "fst (summaries_loop E cfg T idx us acc tr) = acc @ fst (summaries_loop E cfg T idx us [] tr)"
proof (induction us arbitrary: idx acc tr)
  case Nil
  show ?case by simp
next
  case (Cons u us)
  obtain s tr' where p: "process_url E cfg T idx u tr = (s, tr')"
    by (cases "process_url E cfg T idx u tr")
  show ?case
    using Cons.IH[of "Suc idx" "acc @ [s]" tr'] Cons.IH[of "Suc idx" "[s]" tr'] p by simp
qed

lemma loop_length:
  "length (fst (summaries_loop E cfg T idx us acc tr)) = length acc + length us"
  by (induction us arbitrary: idx acc tr) (auto split: prod.splits)

lemma loop_nth:
  "i < length us \<Longrightarrow>
   fst (summaries_loop E cfg T idx us acc tr) ! (length acc + i)
     = fst (process_url E cfg T (idx + i) (us ! i)
              (snd (summaries_loop E cfg T idx (take i us) acc' tr)))"
proof (induction us arbitrary: idx acc acc' tr i)
  case Nil
  then show ?case by simp
next
  case (Cons u us)
  obtain s tr' where p: "process_url E cfg T idx u tr = (s, tr')"
    by (cases "process_url E cfg T idx u tr")
  show ?case
  proof (cases i)
    case 0
    have "fst (summaries_loop E cfg T (Suc idx) us (acc @ [s]) tr') ! length acc = s"
      by (subst loop_fst_acc) (simp add: nth_append)
    with 0 p show ?thesis by simp
  next
    case (Suc j)
    with Cons.prems have j: "j < length us" by simp
    from Cons.IH[OF j, of "Suc idx" "acc @ [s]" tr' "acc' @ [s]"] Suc p
    show ?thesis by simp
  qed
qed

lemma process_url_fetch_failed:
  "fetch_failed E u (tr @ [Ui (Write_processing idx T u), Ui (Info_fetching idx)])
   \<Longrightarrow> fst (process_url E cfg T idx u tr) = []"
  by (auto simp: process_url_def fetch_failed_def Let_def
           split: prod.splits sum.splits option.splits)

lemma process_url_summarize_failed:
  "fetch_webpage_content E u (tr @ [Ui (Write_processing idx T u), Ui (Info_fetching idx)])
     = (Inr (Some c), tr1)
   \<Longrightarrow> summarize_failed E cfg c (tr1 @ [Ui (Info_summarizing idx)])
   \<Longrightarrow> fst (process_url E cfg T idx u tr) = []"
  by (auto simp: process_url_def summarize_failed_def Let_def
           split: prod.splits sum.splits option.splits)

lemma process_url_summarized:
  "fetch_webpage_content E u (tr @ [Ui (Write_processing idx T u), Ui (Info_fetching idx)])
     = (Inr (Some c), tr1)
   \<Longrightarrow> c \<noteq> []
   \<Longrightarrow> summarize_content_with_openai E cfg c (tr1 @ [Ui (Info_summarizing idx)])
         = (Inr (Some s), tr2)
   \<Longrightarrow> fst (process_url E cfg T idx u tr) = s"
  by (auto simp: process_url_def Let_def split: prod.splits sum.splits option.splits)

text \<open>Running the functions in the concrete world.\<close>

lemmas demo_defs = demo_world_def demo_http_def demo_config_def ok_response_def
  server_error_def url_a_def url_b_def url_c_def url_short_def url_nobody_def lit_def

lemma strip_long_text: "py_strip long_text = long_text"
  by (rule py_strip_keep) (simp_all add: long_text_def is_space_def)

lemma length_long_text: "length long_text = 200"
  by (simp add: long_text_def)

lemma long_text_nonblank: "long_text \<noteq> [] \<and> py_strip long_text \<noteq> []"
  by (simp add: strip_long_text) (simp add: long_text_def)

lemmas run_defs = py_strip_empty_iff is_space_def raise_for_status_def strip_long_text
  length_long_text

lemma demo_fetch_a:
  "fetch_webpage_content demo_world (JStr url_a) tr
     = (Inr (Some long_text), tr @ [NetCall (PageGet url_a)])"
  by (simp add: fetch_webpage_content_def demo_defs run_defs)

lemma fetch_ignores_chat:
  "fetch_webpage_content (E\<lparr>chat_create := f\<rparr>) u tr = fetch_webpage_content E u tr"
  by (cases u)
     (auto simp: fetch_webpage_content_def Let_def split: sum.splits option.splits)

lemma demo_fetch_b: "fst (fetch_webpage_content demo_world (JStr url_b) tr) = Inr None"
  by (simp add: fetch_webpage_content_def demo_defs run_defs page_except_def)

lemma strip_digest: "py_strip (lit '' A digest. '') = lit ''A digest.''"
  by (simp add: py_strip_def lit_def is_space_def)

lemma demo_summarize:
  "summarize_content_with_openai demo_world demo_config long_text tr
     = (Inr (Some (lit ''A digest.'')), tr @ [NetCall (summary_request demo_config long_text)])"
  using long_text_nonblank
  by (simp add: summarize_content_with_openai_def demo_world_def summary_request_def strip_digest)

subsection \<open>The claims\<close>

text \<open>
  C1. For every list of URLs, \<open>get_competitor_summaries\<close> returns exactly one summary per
  URL, whatever the outside world answers. Position \<open>i\<close> of the outcome belongs to
  position \<open>i\<close> of the input: it is the empty string when the fetch of that URL failed
  (raised, or returned nothing), or when the fetch gave a text and its summarization
  failed (raised, or returned nothing); it is the summary when both calls succeeded. The
  traces are those at which the loop makes the two calls for that position.
\<close>

theorem one_summary_per_url:
  "length (fst (get_competitor_summaries E cfg urls tr)) = length urls
 \<and> (\<forall>i < length urls.
      (fetch_failed E (urls ! i) (trace_at_fetch E cfg urls tr i)
         \<longrightarrow> fst (get_competitor_summaries E cfg urls tr) ! i = [])
    \<and> (\<forall>c tr1.
          fetch_webpage_content E (urls ! i) (trace_at_fetch E cfg urls tr i) = (Inr (Some c), tr1)
          \<and> summarize_failed E cfg c (tr1 @ [Ui (Info_summarizing (Suc i))])
          \<longrightarrow> fst (get_competitor_summaries E cfg urls tr) ! i = [])
    \<and> (\<forall>c tr1 s tr2.
          fetch_webpage_content E (urls ! i) (trace_at_fetch E cfg urls tr i) = (Inr (Some c), tr1)
          \<and> c \<noteq> []
          \<and> summarize_content_with_openai E cfg c (tr1 @ [Ui (Info_summarizing (Suc i))])
              = (Inr (Some s), tr2)
          \<longrightarrow> fst (get_competitor_summaries E cfg urls tr) ! i = s))"
proof -
  have len: "length (fst (get_competitor_summaries E cfg urls tr)) = length urls"
    by (simp add: get_competitor_summaries_def loop_length)
  have nth: "fst (get_competitor_summaries E cfg urls tr) ! i
               = fst (process_url E cfg (length urls) (Suc i) (urls ! i)
                        (trace_before E cfg urls tr i))"
    if "i < length urls" for i
    using loop_nth[OF that, of E cfg "length urls" 1 "[]" tr "[]"]
    by (simp add: get_competitor_summaries_def trace_before_def)
  show ?thesis
    using len nth
    by (auto simp: trace_at_fetch_def
             intro: process_url_fetch_failed process_url_summarize_failed process_url_summarized)
qed

theorem one_summary_per_url_witness:
  "length (fst (get_competitor_summaries demo_world demo_config demo_urls [])) = 3
 \<and> fst (get_competitor_summaries demo_world demo_config demo_urls []) ! 0 = lit ''A digest.''
 \<and> fst (get_competitor_summaries demo_world demo_config demo_urls []) ! 1 = []
 \<and> fst (get_competitor_summaries
          (demo_world\<lparr>chat_create := \<lambda>tr req. Inl (OtherException (lit ''rate limit''))\<rparr>)
          demo_config [JStr url_a] []) ! 0 = []"
proof -
  let ?mute = "demo_world\<lparr>chat_create := \<lambda>tr req. Inl (OtherException (lit ''rate limit''))\<rparr>"
  note T = one_summary_per_url[of demo_world demo_config demo_urls "[]"]
  note M = one_summary_per_url[of ?mute demo_config "[JStr url_a]" "[]"]
  have l: "length demo_urls = 3" "demo_urls ! 0 = JStr url_a" "demo_urls ! 1 = JStr url_b"
    "demo_urls ! Suc 0 = JStr url_b"
    by (simp_all add: demo_urls_def)
  have f1: "fetch_failed demo_world (demo_urls ! 1)
              (trace_at_fetch demo_world demo_config demo_urls [] 1)"
    by (simp add: fetch_failed_def l demo_fetch_b)
  have f0: "fetch_webpage_content demo_world (demo_urls ! 0)
              (trace_at_fetch demo_world demo_config demo_urls [] 0)
            = (Inr (Some long_text),
               trace_at_fetch demo_world demo_config demo_urls [] 0 @ [NetCall (PageGet url_a)])"
    by (simp add: l demo_fetch_a)
  have n: "long_text \<noteq> []" using long_text_nonblank by simp
  have m0: "fetch_webpage_content ?mute ([JStr url_a] ! 0)
              (trace_at_fetch ?mute demo_config [JStr url_a] [] 0)
            = (Inr (Some long_text),
               trace_at_fetch ?mute demo_config [JStr url_a] [] 0 @ [NetCall (PageGet url_a)])"
    by (simp add: fetch_ignores_chat demo_fetch_a)
  have m1: "summarize_failed ?mute demo_config long_text tr" for tr
    using long_text_nonblank
    by (simp add: summarize_failed_def summarize_content_with_openai_def summary_except_def)
  from T l have "length (fst (get_competitor_summaries demo_world demo_config demo_urls [])) = 3"
    by simp
  moreover from T l f1
  have "fst (get_competitor_summaries demo_world demo_config demo_urls []) ! 1 = []"
    by simp
  moreover from T l f0 n demo_summarize
  have "fst (get_competitor_summaries demo_world demo_config demo_urls []) ! 0 = lit ''A digest.''"
    by (metis zero_less_numeral)
  moreover from M m0 m1
  have "fst (get_competitor_summaries ?mute demo_config [JStr url_a] []) ! 0 = []"
    by (metis length_Cons zero_less_Suc)
  ultimately show ?thesis by simp
qed

text \<open>
  C2. A keyword that is blank after \<open>strip()\<close> gives the empty list: the function logs a
  warning and issues no network request, whatever the count and the outside world.
\<close>

theorem blank_keyword_no_request:
  assumes "py_strip kw = []"
  shows "fst (fetch_top_urls E cfg kw n tr) = Inr []
       \<and> net_calls (snd (fetch_top_urls E cfg kw n tr)) = net_calls tr
       \<and> snd (fetch_top_urls E cfg kw n tr)
           = tr @ [Log WARNING (lit ''Please enter a valid keyword.'')]"
  using assms by (simp add: fetch_top_urls_def net_calls_def)

theorem blank_keyword_no_request_witness:
  "py_strip (lit ''   '') = []
 \<and> fst (fetch_top_urls demo_world demo_config (lit ''   '') 3 []) = Inr []
 \<and> net_calls (snd (fetch_top_urls demo_world demo_config (lit ''   '') 3 [])) = []"
proof -
  have b: "py_strip (lit ''   '') = []"
    by (simp add: py_strip_empty_iff lit_def is_space_def)
  from blank_keyword_no_request[OF b, of demo_world demo_config 3 "[]"] b
  show ?thesis by (simp add: net_calls_def)
qed

text \<open>
  C3. \<open>fetch_webpage_content\<close> never returns a text shorter than 200 characters after
  \<open>strip()\<close>: for a page that was fetched and whose cleaned text is that short it returns
  \<open>None\<close>, and so it does when the document has no body, when the request raises a
  RequestException, and when the HTTP status is an error.
\<close>

theorem fetch_rejects_short_text:
  "(fst (fetch_webpage_content E (JStr s) tr) = Inr (Some t) \<longrightarrow> 200 \<le> length (py_strip t))
 \<and> (http_get E tr (PageGet s) = Inr response \<and> raise_for_status response = None
      \<and> soup_body E (body_text response) = Some b
      \<and> length (py_strip (body_to_text E b)) < 200
      \<longrightarrow> fst (fetch_webpage_content E (JStr s) tr) = Inr None)
 \<and> (http_get E tr (PageGet s) = Inr response \<and> raise_for_status response = None
      \<and> soup_body E (body_text response) = None
      \<longrightarrow> fst (fetch_webpage_content E (JStr s) tr) = Inr None)
 \<and> (http_get E tr (PageGet s) = Inl (RequestException m)
      \<longrightarrow> fst (fetch_webpage_content E (JStr s) tr) = Inr None)
 \<and> (http_get E tr (PageGet s) = Inr response \<and> raise_for_status response \<noteq> None
      \<longrightarrow> fst (fetch_webpage_content E (JStr s) tr) = Inr None)"
  by (auto simp: fetch_webpage_content_def page_except_def Let_def
           split: sum.splits option.splits exn.splits if_splits
           dest!: raise_for_status_request)

theorem fetch_rejects_short_text_witness:
  "200 \<le> length (py_strip long_text)
 \<and> fst (fetch_webpage_content demo_world (JStr url_short) []) = Inr None
 \<and> fst (fetch_webpage_content demo_world (JStr url_nobody) []) = Inr None
 \<and> fst (fetch_webpage_content demo_world (JStr url_b) []) = Inr None
 \<and> fst (fetch_webpage_content (demo_world\<lparr>http_get := \<lambda>tr req. Inr server_error\<rparr>)
           (JStr url_a) []) = Inr None"
proof -
  let ?page = "\<lambda>u. ok_response u (Inl (lit ''Expecting value''))"
  let ?down = "demo_world\<lparr>http_get := \<lambda>tr req. Inr server_error\<rparr>"
  have a: "fst (fetch_webpage_content demo_world (JStr url_a) []) = Inr (Some long_text)"
    by (simp add: demo_fetch_a)
  have s: "http_get demo_world [] (PageGet url_short) = Inr (?page url_short)
         \<and> raise_for_status (?page url_short) = None
         \<and> soup_body demo_world (body_text (?page url_short)) = Some url_short
         \<and> length (py_strip (body_to_text demo_world url_short)) < 200"
    by (simp add: demo_defs raise_for_status_def short_strip)
  have n: "http_get demo_world [] (PageGet url_nobody) = Inr (?page url_nobody)
         \<and> raise_for_status (?page url_nobody) = None
         \<and> soup_body demo_world (body_text (?page url_nobody)) = None"
    by (simp add: demo_defs raise_for_status_def)
  have b: "http_get demo_world [] (PageGet url_b) = Inl (RequestException (lit ''timed out''))"
    by (simp add: demo_world_def demo_http_def url_b_def)
  have e: "http_get ?down [] (PageGet url_a) = Inr server_error
         \<and> raise_for_status server_error \<noteq> None"
    by (simp add: server_error_def raise_for_status_def)
  from fetch_rejects_short_text[of demo_world url_a "[]" long_text] a
  have "200 \<le> length (py_strip long_text)" by blast
  moreover from fetch_rejects_short_text[of demo_world url_short "[]" _ "?page url_short" url_short] s
  have "fst (fetch_webpage_content demo_world (JStr url_short) []) = Inr None" by blast
  moreover from fetch_rejects_short_text[of demo_world url_nobody "[]" _ "?page url_nobody"] n
  have "fst (fetch_webpage_content demo_world (JStr url_nobody) []) = Inr None" by blast
  moreover from fetch_rejects_short_text[of demo_world url_b "[]" _ _ _ "lit ''timed out''"] b
  have "fst (fetch_webpage_content demo_world (JStr url_b) []) = Inr None" by blast
  moreover from fetch_rejects_short_text[of ?down url_a "[]" _ server_error] e
  have "fst (fetch_webpage_content ?down (JStr url_a) []) = Inr None" by blast
  ultimately show ?thesis by blast
qed

text \<open>
  C4. For a content string that is empty or consists of whitespace only,
  \<open>analyze_content_with_openai\<close> returns the error dict, not a stream, and leaves the
  trace as it was: it issues no network request (and nothing else) before returning.
\<close>

theorem blank_content_error_dict:
  assumes "t = [] \<or> py_strip t = []"
  shows "analyze_content_with_openai E cfg t kw xs tr
           = (Inr (ErrorDict (lit ''No text provided for analysis.'')), tr)
       \<and> (\<forall>st. fst (analyze_content_with_openai E cfg t kw xs tr) \<noteq> Inr (StreamResult st))
       \<and> net_calls (snd (analyze_content_with_openai E cfg t kw xs tr)) = net_calls tr"
  using assms by (auto simp: analyze_content_with_openai_def)

theorem blank_content_error_dict_witness:
  "analyze_content_with_openai demo_world demo_config (lit ''   '')
     (lit ''best laptops 2024'') [lit ''A digest.'', []] []
     = (Inr (ErrorDict (lit ''No text provided for analysis.'')), [])"
proof -
  have b: "lit ''   '' = [] \<or> py_strip (lit ''   '') = []"
    by (simp add: py_strip_empty_iff lit_def is_space_def)
  from blank_content_error_dict[OF b] show ?thesis by blast
qed

text \<open>
  C7. \<open>summarize_content_with_openai\<close> never raises. When the provider answers with at
  least one choice that has a content, the outcome is that content after \<open>strip()\<close>;
  when the provider answers without choices, or the call raises any exception, the
  function logs an error and returns \<open>None\<close>.
\<close>

theorem summarize_never_raises:
  "(\<exists>r. fst (summarize_content_with_openai E cfg t tr) = Inr r)
 \<and> (t \<noteq> [] \<and> py_strip t \<noteq> []
      \<and> chat_create E tr (summary_request cfg t) = Inr (Some response)
      \<and> choices response = Some c # cs
      \<longrightarrow> fst (summarize_content_with_openai E cfg t tr) = Inr (Some (py_strip c)))
 \<and> (t \<noteq> [] \<and> py_strip t \<noteq> []
      \<and> chat_create E tr (summary_request cfg t) = Inr (Some response)
      \<and> choices response = []
      \<longrightarrow> summarize_content_with_openai E cfg t tr
            = (Inr None,
               tr @ [NetCall (summary_request cfg t),
                     Log ERROR (lit ''Failed to generate summary from OpenAI.'')]))
 \<and> (t \<noteq> [] \<and> py_strip t \<noteq> []
      \<and> chat_create E tr (summary_request cfg t) = Inl e
      \<longrightarrow> summarize_content_with_openai E cfg t tr
            = (Inr None,
               tr @ [NetCall (summary_request cfg t),
                     Log ERROR (lit ''OpenAI Summarization Error: '' @ exn_msg e)]))"
  by (auto simp: summarize_content_with_openai_def summary_except_def summary_request_def Let_def
           split: sum.splits option.splits list.splits)

theorem summarize_never_raises_witness:
  "fst (summarize_content_with_openai demo_world demo_config long_text [])
     = Inr (Some (lit ''A digest.''))
 \<and> fst (summarize_content_with_openai
          (demo_world\<lparr>chat_create := \<lambda>tr req. Inr (Some \<lparr>choices = []\<rparr>)\<rparr>)
          demo_config long_text []) = Inr None
 \<and> fst (summarize_content_with_openai
          (demo_world\<lparr>chat_create := \<lambda>tr req. Inl (OtherException (lit ''rate limit''))\<rparr>)
          demo_config long_text []) = Inr None"
proof -
  let ?none = "demo_world\<lparr>chat_create := \<lambda>tr req. Inr (Some \<lparr>choices = []\<rparr>)\<rparr>"
  let ?fail = "demo_world\<lparr>chat_create := \<lambda>tr req. Inl (OtherException (lit ''rate limit''))\<rparr>"
  let ?req = "summary_request demo_config long_text"
  have 1: "chat_create demo_world [] ?req = Inr (Some \<lparr>choices = [Some (lit '' A digest. '')]\<rparr>)
         \<and> choices \<lparr>choices = [Some (lit '' A digest. '')]\<rparr> = Some (lit '' A digest. '') # []"
    by (simp add: demo_world_def)
  have 2: "chat_create ?none [] ?req = Inr (Some \<lparr>choices = []\<rparr>)
         \<and> choices \<lparr>choices = []\<rparr> = []"
    by simp
  have 3: "chat_create ?fail [] ?req = Inl (OtherException (lit ''rate limit''))"
    by simp
  from summarize_never_raises[of demo_world demo_config long_text "[]"
         "\<lparr>choices = [Some (lit '' A digest. '')]\<rparr>" "lit '' A digest. ''" "[]"]
       1 long_text_nonblank strip_digest
  have "fst (summarize_content_with_openai demo_world demo_config long_text [])
          = Inr (Some (lit ''A digest.''))" by simp
  moreover from summarize_never_raises[of ?none demo_config long_text "[]" "\<lparr>choices = []\<rparr>"]
       2 long_text_nonblank
  have "fst (summarize_content_with_openai ?none demo_config long_text []) = Inr None"
    by simp
  moreover from summarize_never_raises[of ?fail demo_config long_text "[]" _ _ _
         "OtherException (lit ''rate limit'')"]
       3 long_text_nonblank
  have "fst (summarize_content_with_openai ?fail demo_config long_text []) = Inr None"
    by simp
  ultimately show ?thesis by blast
qed

text \<open>
  C10. \<open>analyze_content_with_openai\<close> never raises, and what it returns besides the
  stream has three shapes: the dict \<open>{"error": ...}\<close> for blank content, a plain string
  that begins with \<open>error: \<close> when the provider call raises, and \<open>None\<close> when the call
  returns a falsy response and control falls off the end of the function.
\<close>

theorem analyze_three_failure_shapes:
  "(\<exists>r. fst (analyze_content_with_openai E cfg t kw xs tr) = Inr r)
 \<and> (t = [] \<or> py_strip t = []
      \<longrightarrow> fst (analyze_content_with_openai E cfg t kw xs tr)
            = Inr (ErrorDict (lit ''No text provided for analysis.'')))
 \<and> (t \<noteq> [] \<and> py_strip t \<noteq> []
      \<and> chat_stream E tr (analysis_request cfg t kw xs) = Inl e
      \<longrightarrow> fst (analyze_content_with_openai E cfg t kw xs tr)
            = Inr (ErrorStr (lit ''error: '' @ exn_msg e)))
 \<and> (t \<noteq> [] \<and> py_strip t \<noteq> []
      \<and> chat_stream E tr (analysis_request cfg t kw xs) = Inr None
      \<longrightarrow> fst (analyze_content_with_openai E cfg t kw xs tr) = Inr NoneResult)
 \<and> (t \<noteq> [] \<and> py_strip t \<noteq> []
      \<and> chat_stream E tr (analysis_request cfg t kw xs) = Inr (Some st)
      \<longrightarrow> fst (analyze_content_with_openai E cfg t kw xs tr) = Inr (StreamResult st))"
  by (auto simp: analyze_content_with_openai_def analysis_request_def Let_def
           split: sum.splits option.splits)

theorem analyze_three_failure_shapes_witness:
  "fst (analyze_content_with_openai demo_world demo_config [] (lit ''kw'') [] [])
     = Inr (ErrorDict (lit ''No text provided for analysis.''))
 \<and> fst (analyze_content_with_openai
          (demo_world\<lparr>chat_stream := \<lambda>tr req. Inl (OtherException (lit ''rate limit''))\<rparr>)
          demo_config long_text (lit ''kw'') [] [])
     = Inr (ErrorStr (lit ''error: '' @ lit ''rate limit''))
 \<and> fst (analyze_content_with_openai (demo_world\<lparr>chat_stream := \<lambda>tr req. Inr None\<rparr>)
          demo_config long_text (lit ''kw'') [] []) = Inr NoneResult
 \<and> fst (analyze_content_with_openai demo_world demo_config long_text (lit ''kw'') [] [])
     = Inr (StreamResult (Stream [lit ''Looks '', lit ''good.'']))"
proof -
  let ?fail = "demo_world\<lparr>chat_stream := \<lambda>tr req. Inl (OtherException (lit ''rate limit''))\<rparr>"
  let ?none = "demo_world\<lparr>chat_stream := \<lambda>tr req. Inr None\<rparr>"
  let ?req = "analysis_request demo_config long_text (lit ''kw'') []"
  have 1: "chat_stream ?fail [] ?req = Inl (OtherException (lit ''rate limit''))" by simp
  have 2: "chat_stream ?none [] ?req = Inr None" by simp
  have 3: "chat_stream demo_world [] ?req = Inr (Some (Stream [lit ''Looks '', lit ''good.'']))"
    by (simp add: demo_world_def)
  from analyze_three_failure_shapes[of demo_world demo_config "[]" "lit ''kw''" "[]" "[]"]
  have "fst (analyze_content_with_openai demo_world demo_config [] (lit ''kw'') [] [])
          = Inr (ErrorDict (lit ''No text provided for analysis.''))" by simp
  moreover
  from analyze_three_failure_shapes[of ?fail demo_config long_text "lit ''kw''" "[]" "[]"
         "OtherException (lit ''rate limit'')"] 1 long_text_nonblank
  have "fst (analyze_content_with_openai ?fail demo_config long_text (lit ''kw'') [] [])
          = Inr (ErrorStr (lit ''error: '' @ lit ''rate limit''))" by simp
  moreover
  from analyze_three_failure_shapes[of ?none demo_config long_text "lit ''kw''" "[]" "[]"]
       2 long_text_nonblank
  have "fst (analyze_content_with_openai ?none demo_config long_text (lit ''kw'') [] [])
          = Inr NoneResult" by simp
  moreover
  from analyze_three_failure_shapes[of demo_world demo_config long_text "lit ''kw''" "[]" "[]"
         _ "Stream [lit ''Looks '', lit ''good.'']"] 3 long_text_nonblank
  have "fst (analyze_content_with_openai demo_world demo_config long_text (lit ''kw'') [] [])
          = Inr (StreamResult (Stream [lit ''Looks '', lit ''good.'']))" by simp
  ultimately show ?thesis by blast
qed

lemma collect_urls_dicts:
  "\<forall>item \<in> set items. is_dict item
   \<Longrightarrow> collect_urls items = Inr (filter truthy (map url_field items))"
  by (induction items)
     (auto simp: is_dict_def url_field_def dict_get_def split: json.splits)

text \<open>
  C6. When the provider's payload is a JSON object whose \<open>positions\<close> is a list of
  objects, \<open>fetch_top_urls\<close> returns the \<open>url\<close> values of the items, in the order of the
  payload, leaving out the items whose \<open>url\<close> is missing or falsy. When the request
  raises a RequestException, when the HTTP status is an error, and when the payload has
  no \<open>positions\<close> (missing, or falsy), it returns the empty list; in none of these cases
  does it raise.
\<close>

theorem top_urls_in_rank_order:
  "(py_strip kw \<noteq> []
      \<and> http_get E tr (search_request cfg kw n) = Inr response
      \<and> raise_for_status response = None
      \<and> body_json response = Inr (JObj kvs)
      \<and> map_of kvs (lit ''positions'') = Some (JList items)
      \<and> (\<forall>item \<in> set items. is_dict item)
      \<longrightarrow> fst (fetch_top_urls E cfg kw n tr) = Inr (filter truthy (map url_field items)))
 \<and> (http_get E tr (search_request cfg kw n) = Inl (RequestException m)
      \<longrightarrow> fst (fetch_top_urls E cfg kw n tr) = Inr [])
 \<and> (http_get E tr (search_request cfg kw n) = Inr response
      \<and> raise_for_status response \<noteq> None
      \<longrightarrow> fst (fetch_top_urls E cfg kw n tr) = Inr [])
 \<and> (http_get E tr (search_request cfg kw n) = Inr response
      \<and> raise_for_status response = None
      \<and> body_json response = Inr (JObj kvs)
      \<and> (map_of kvs (lit ''positions'') = None
          \<or> (\<exists>p. map_of kvs (lit ''positions'') = Some p \<and> \<not> truthy p))
      \<longrightarrow> fst (fetch_top_urls E cfg kw n tr) = Inr [])"
  by (auto simp: fetch_top_urls_def search_request_def search_except_def dict_get_def
                 iterate_positions_def collect_urls_dicts Let_def
           split: sum.splits option.splits
           dest!: raise_for_status_request)

theorem top_urls_in_rank_order_witness:
  "fst (fetch_top_urls demo_world demo_config (lit ''best laptops 2024'') 3 [])
     = Inr [JStr url_a, JStr url_b, JStr url_c]
 \<and> fst (fetch_top_urls demo_world demo_config (lit ''down'') 3 []) = Inr []
 \<and> fst (fetch_top_urls demo_world demo_config (lit ''http 500'') 3 []) = Inr []
 \<and> fst (fetch_top_urls demo_world demo_config (lit ''nothing'') 3 []) = Inr []"
proof -
  let ?items = "[JObj [(lit ''url'', JStr url_a)],
                 JObj [(lit ''title'', JStr (lit ''no url here''))],
                 JObj [(lit ''url'', JStr url_b)],
                 JObj [(lit ''url'', JStr [])],
                 JObj [(lit ''url'', JStr url_c)]]"
  let ?kvs = "[(lit ''positions'', JList ?items)]"
  let ?r = "\<lambda>kw. search_request demo_config kw 3"
  have 1: "py_strip (lit ''best laptops 2024'') \<noteq> []
     \<and> http_get demo_world [] (?r (lit ''best laptops 2024'')) = Inr (ok_response [] (Inr demo_payload))
     \<and> raise_for_status (ok_response [] (Inr demo_payload)) = None
     \<and> body_json (ok_response [] (Inr demo_payload)) = Inr (JObj ?kvs)
     \<and> map_of ?kvs (lit ''positions'') = Some (JList ?items)
     \<and> (\<forall>item \<in> set ?items. is_dict item)"
    by (simp add: py_strip_empty_iff is_space_def demo_world_def demo_http_def search_request_def
                  ok_response_def raise_for_status_def demo_payload_def is_dict_def lit_def)
  have v: "filter truthy (map url_field ?items) = [JStr url_a, JStr url_b, JStr url_c]"
    by (simp add: url_field_def dict_get_def lit_def url_a_def url_b_def url_c_def)
  have 2: "http_get demo_world [] (?r (lit ''down''))
             = Inl (RequestException (lit ''connection refused''))"
    by (simp add: demo_world_def demo_http_def search_request_def lit_def)
  have 3: "http_get demo_world [] (?r (lit ''http 500'')) = Inr server_error
     \<and> raise_for_status server_error \<noteq> None"
    by (simp add: demo_world_def demo_http_def search_request_def lit_def server_error_def
                  raise_for_status_def)
  have 4: "http_get demo_world [] (?r (lit ''nothing'')) = Inr (ok_response [] (Inr (JObj [])))
     \<and> raise_for_status (ok_response [] (Inr (JObj []))) = None
     \<and> body_json (ok_response [] (Inr (JObj []))) = Inr (JObj [])
     \<and> map_of [] (lit ''positions'') = (None :: json option)"
    by (simp add: demo_world_def demo_http_def search_request_def lit_def ok_response_def
                  raise_for_status_def)
  from top_urls_in_rank_order[of "lit ''best laptops 2024''" demo_world "[]" demo_config 3
         "ok_response [] (Inr demo_payload)" ?kvs ?items] 1 v
  have "fst (fetch_top_urls demo_world demo_config (lit ''best laptops 2024'') 3 [])
          = Inr [JStr url_a, JStr url_b, JStr url_c]" by simp
  moreover
  from top_urls_in_rank_order[of "lit ''down''" demo_world "[]" demo_config 3 _ _ _
         "lit ''connection refused''"] 2
  have "fst (fetch_top_urls demo_world demo_config (lit ''down'') 3 []) = Inr []" by blast
  moreover
  from top_urls_in_rank_order[of "lit ''http 500''" demo_world "[]" demo_config 3 server_error] 3
  have "fst (fetch_top_urls demo_world demo_config (lit ''http 500'') 3 []) = Inr []" by blast
  moreover
  from top_urls_in_rank_order[of "lit ''nothing''" demo_world "[]" demo_config 3
         "ok_response [] (Inr (JObj []))" "[]"] 4
  have "fst (fetch_top_urls demo_world demo_config (lit ''nothing'') 3 []) = Inr []" by blast
  ultimately show ?thesis by blast
qed

lemma sublist_in_left: "sublist xs ys \<Longrightarrow> sublist xs (zs @ ys)"
  by (metis append.assoc sublist_def)

lemma sublist_in_right: "sublist xs ys \<Longrightarrow> sublist xs (ys @ zs)"
  by (metis append.assoc sublist_def)

lemma add_summaries_extends: "\<exists>more. add_summaries i xs p = p @ more"
proof (induction xs arbitrary: i p)
  case Nil
  show ?case by simp
next
  case (Cons x xs)
  from Cons.IH[of "Suc i" "p @ competitor_block i x"] show ?case by auto
qed

lemma add_summaries_block:
  "j < length xs \<Longrightarrow> sublist (competitor_block (i + j) (xs ! j)) (add_summaries i xs p)"
proof (induction xs arbitrary: i j p)
  case Nil
  then show ?case by simp
next
  case (Cons x xs)
  show ?case
  proof (cases j)
    case 0
    obtain more where "add_summaries (Suc i) xs (p @ competitor_block i x)
                         = (p @ competitor_block i x) @ more"
      using add_summaries_extends by blast
    with 0 show ?thesis by (simp add: sublist_def) blast
  next
    case (Suc k)
    with Cons.prems have "k < length xs" by simp
    from Cons.IH[OF this, of "Suc i" "p @ competitor_block i x"] Suc show ?thesis by simp
  qed
qed

lemma prompt_has_block:
  assumes "j < length xs"
  shows "sublist (competitor_block (Suc j) (xs ! j)) (analysis_prompt t kw xs)"
proof -
  from assms have ne: "xs \<noteq> []" by auto
  from add_summaries_block[OF assms, of 1] have
    "sublist (competitor_block (Suc j) (xs ! j))
       (add_summaries 1 xs
          (lit ''Content to analyze:'' @ nl @ t @ nl @ nl @ lit ''Focus keyword: '' @ kw @ nl @ nl
           @ lit ''Competitor content summaries (for context):'' @ nl))"
    by simp
  then show ?thesis
    using ne by (simp add: analysis_prompt_def Let_def sublist_in_right del: One_nat_def)
qed

text \<open>
  C8. The claim says that empty placeholder summaries are not embedded in the prompt.
  The loop over \<open>competitor_summaries\<close> has no such test: with the summaries
  \<open>["first", "", "third"]\<close> the prompt contains the block of competitor 2, label and empty
  body.
\<close>

theorem empty_summary_is_embedded:
  "sublist (lit ''Competitor 2 Summary:'' @ [10, 10, 10])
     (analysis_prompt (lit ''My text about laptops.'') (lit ''best laptops 2024'')
        [lit ''first'', [], lit ''third''])"
proof -
  have "competitor_block (Suc 1) ([lit ''first'', [], lit ''third''] ! 1)
          = lit ''Competitor 2 Summary:'' @ [10, 10, 10]"
    by (simp add: competitor_block_def str_nat.simps nl_def lit_def)
  with prompt_has_block[of 1 "[lit ''first'', [], lit ''third'']"
         "lit ''My text about laptops.''" "lit ''best laptops 2024''"]
  show ?thesis by simp
qed

text \<open>
  C8, amended. The prompt embeds the content, the keyword, and every competitor
  summary, empty placeholders included, each in a block labelled with its position
  (counted from 1), and it asks for the five sections of the analysis.
\<close>

theorem prompt_embeds_every_summary:
  "sublist (lit ''Content to analyze:'' @ nl @ t @ nl @ nl) (analysis_prompt t kw xs)
 \<and> sublist (lit ''Focus keyword: '' @ kw @ nl @ nl) (analysis_prompt t kw xs)
 \<and> (\<forall>i < length xs.
       sublist (lit ''Competitor '' @ str_nat (Suc i) @ lit '' Summary:'' @ nl @ xs ! i @ nl @ nl)
         (analysis_prompt t kw xs))
 \<and> length analysis_sections = 5
 \<and> (\<forall>part \<in> set analysis_sections. sublist part (analysis_prompt t kw xs))"
proof -
  let ?p0 = "lit ''Content to analyze:'' @ nl @ t @ nl @ nl @ lit ''Focus keyword: '' @ kw @ nl @ nl"
  obtain p1 where p: "analysis_prompt t kw xs
      = (?p0 @ p1) @ lit ''Your analysis should include:'' @ nl
          @ analysis_sections ! 0 @ nl @ analysis_sections ! 1 @ nl @ analysis_sections ! 2 @ nl
          @ analysis_sections ! 3 @ nl @ analysis_sections ! 4"
  proof (cases "xs = []")
    case True
    then show ?thesis using that[of "[]"] by (simp add: analysis_prompt_def Let_def)
  next
    case False
    obtain more where "add_summaries 1 xs
        (?p0 @ lit ''Competitor content summaries (for context):'' @ nl)
        = (?p0 @ lit ''Competitor content summaries (for context):'' @ nl) @ more"
      using add_summaries_extends by blast
    with False show ?thesis
      using that[of "lit ''Competitor content summaries (for context):'' @ nl @ more"]
      by (simp add: analysis_prompt_def Let_def)
  qed
  have c: "sublist (lit ''Content to analyze:'' @ nl @ t @ nl @ nl) (analysis_prompt t kw xs)"
    unfolding p sublist_def
    by (rule exI[of _ "[]"], rule exI) simp
  have k: "sublist (lit ''Focus keyword: '' @ kw @ nl @ nl) (analysis_prompt t kw xs)"
    unfolding p sublist_def
    by (rule exI[of _ "lit ''Content to analyze:'' @ nl @ t @ nl @ nl"], rule exI) simp
  have b: "\<forall>i < length xs.
       sublist (lit ''Competitor '' @ str_nat (Suc i) @ lit '' Summary:'' @ nl @ xs ! i @ nl @ nl)
         (analysis_prompt t kw xs)"
    using prompt_has_block[of _ xs t kw] by (simp add: competitor_block_def)
  have s: "sublist (analysis_sections ! j) (analysis_prompt t kw xs)" if "j < 5" for j
  proof -
    from that consider "j = 0" | "j = 1" | "j = 2" | "j = 3" | "j = 4" by linarith
    then show ?thesis
    proof cases
      case 1
      show ?thesis unfolding p 1 sublist_def
        by (rule exI[of _ "(?p0 @ p1) @ lit ''Your analysis should include:'' @ nl"], rule exI) simp
    next
      case 2
      show ?thesis unfolding p 2 sublist_def
        by (rule exI[of _ "(?p0 @ p1) @ lit ''Your analysis should include:'' @ nl
                            @ analysis_sections ! 0 @ nl"], rule exI) simp
    next
      case 3
      show ?thesis unfolding p 3 sublist_def
        by (rule exI[of _ "(?p0 @ p1) @ lit ''Your analysis should include:'' @ nl
                            @ analysis_sections ! 0 @ nl @ analysis_sections ! 1 @ nl"], rule exI)
           simp
    next
      case 4
      show ?thesis unfolding p 4 sublist_def
        by (rule exI[of _ "(?p0 @ p1) @ lit ''Your analysis should include:'' @ nl
                            @ analysis_sections ! 0 @ nl @ analysis_sections ! 1 @ nl
                            @ analysis_sections ! 2 @ nl"], rule exI) simp
    next
      case 5
      show ?thesis unfolding p 5 sublist_def
        by (rule exI[of _ "(?p0 @ p1) @ lit ''Your analysis should include:'' @ nl
                            @ analysis_sections ! 0 @ nl @ analysis_sections ! 1 @ nl
                            @ analysis_sections ! 2 @ nl @ analysis_sections ! 3 @ nl"],
            rule exI[of _ "[]"]) simp
    qed
  qed
  have l: "length analysis_sections = 5" by (simp add: analysis_sections_def)
  have "\<forall>part \<in> set analysis_sections. sublist part (analysis_prompt t kw xs)"
    using s l by (metis in_set_conv_nth)
  with c k b l show ?thesis by blast
qed

theorem prompt_embeds_every_summary_witness:
  "sublist (lit ''Competitor '' @ str_nat 2 @ lit '' Summary:'' @ nl @ [] @ nl @ nl)
     (analysis_prompt (lit ''My text about laptops.'') (lit ''best laptops 2024'')
        [lit ''first'', [], lit ''third''])
 \<and> sublist (lit ''5. SEO enhancement strategies'')
     (analysis_prompt (lit ''My text about laptops.'') (lit ''best laptops 2024'')
        [lit ''first'', [], lit ''third''])"
proof -
  note T = prompt_embeds_every_summary[of "lit ''My text about laptops.''"
             "lit ''best laptops 2024''" "[lit ''first'', [], lit ''third'']"]
  have i: "(1::nat) < length [lit ''first'', [], lit ''third'']"
          "[lit ''first'', [], lit ''third''] ! 1 = []" by simp_all
  have m: "lit ''5. SEO enhancement strategies'' \<in> set analysis_sections"
    by (simp add: analysis_sections_def)
  from T i have "sublist (lit ''Competitor '' @ str_nat (Suc 1) @ lit '' Summary:'' @ nl @ [] @ nl @ nl)
     (analysis_prompt (lit ''My text about laptops.'') (lit ''best laptops 2024'')
        [lit ''first'', [], lit ''third''])" by (metis)
  moreover from T m have "sublist (lit ''5. SEO enhancement strategies'')
     (analysis_prompt (lit ''My text about laptops.'') (lit ''best laptops 2024'')
        [lit ''first'', [], lit ''third''])" by blast
  ultimately show ?thesis by (simp add: numeral_2_eq_2)
qed

lemma demo_search_nothing:
  "fst (fetch_top_urls demo_world demo_config (lit ''nothing'') 3 tr) = Inr []"
  by (simp add: fetch_top_urls_def py_strip_empty_iff is_space_def demo_world_def demo_http_def
                demo_config_def ok_response_def raise_for_status_def dict_get_def lit_def)

lemma demo_search_broken:
  "\<exists>e. fst (fetch_top_urls demo_world demo_config (lit ''broken'') 3 tr) = Inl e"
  by (simp add: fetch_top_urls_def py_strip_empty_iff is_space_def demo_world_def demo_http_def
                demo_config_def ok_response_def raise_for_status_def dict_get_def
                search_except_def no_attribute_def lit_def)

lemma run_no_urls:
  "user_content ss \<noteq> []
   \<Longrightarrow> fst (fetch_top_urls E cfg (keyword ss) (NUMBER_OF_SEARCHES cfg) (trace_at_search tr)) = Inr []
   \<Longrightarrow> fst (run_content_analysis E cfg ss tr) = ss"
  by (auto simp: run_content_analysis_def trace_at_search_def Let_def split: prod.splits sum.splits)

lemma run_raised:
  "user_content ss \<noteq> []
   \<Longrightarrow> fst (fetch_top_urls E cfg (keyword ss) (NUMBER_OF_SEARCHES cfg) (trace_at_search tr)) = Inl e
   \<Longrightarrow> fst (run_content_analysis E cfg ss tr) = ss"
  by (auto simp: run_content_analysis_def run_except_def trace_at_search_def Let_def
           split: prod.splits sum.splits)

text \<open>
  C9. The claim says that starting a run replaces the stored result even when the run ends
  early. The only assignment to \<open>st.session_state['result']\<close> follows the analyzer call:
  a run that ends early (empty content, no URLs, an exception caught at the top) leaves
  the stored report of an earlier run in place, and leaves the key absent if it was.
\<close>

theorem early_exit_keeps_prior_result:
  "result (fst (run_content_analysis demo_world demo_config
                  (demo_session\<lparr>user_content := [], result := Some stale_report\<rparr>) []))
     = Some stale_report
 \<and> result (fst (run_content_analysis demo_world demo_config
                  (demo_session\<lparr>keyword := lit ''nothing'', result := Some stale_report\<rparr>) []))
     = Some stale_report
 \<and> result (fst (run_content_analysis demo_world demo_config
                  (demo_session\<lparr>keyword := lit ''broken'', result := Some stale_report\<rparr>) []))
     = Some stale_report
 \<and> result (fst (run_content_analysis demo_world demo_config
                  (demo_session\<lparr>user_content := []\<rparr>) []))
     = None"
proof -
  have n: "NUMBER_OF_SEARCHES demo_config = 3" by (simp add: demo_config_def)
  have c: "user_content demo_session \<noteq> []" by (simp add: demo_session_def lit_def)
  have 1: "fst (run_content_analysis demo_world demo_config
                  (demo_session\<lparr>user_content := [], result := Some stale_report\<rparr>) [])
             = demo_session\<lparr>user_content := [], result := Some stale_report\<rparr>"
    by (simp add: run_content_analysis_def)
  have 2: "fst (run_content_analysis demo_world demo_config
                  (demo_session\<lparr>keyword := lit ''nothing'', result := Some stale_report\<rparr>) [])
             = demo_session\<lparr>keyword := lit ''nothing'', result := Some stale_report\<rparr>"
    by (rule run_no_urls) (simp_all add: c n demo_search_nothing)
  obtain e where "fst (fetch_top_urls demo_world demo_config (lit ''broken'') 3 (trace_at_search []))
                    = Inl e"
    using demo_search_broken by blast
  then have 3: "fst (run_content_analysis demo_world demo_config
                  (demo_session\<lparr>keyword := lit ''broken'', result := Some stale_report\<rparr>) [])
             = demo_session\<lparr>keyword := lit ''broken'', result := Some stale_report\<rparr>"
    by (intro run_raised[of _ _ _ _ e]) (simp_all add: c n)
  have 4: "fst (run_content_analysis demo_world demo_config
                  (demo_session\<lparr>user_content := []\<rparr>) [])
             = demo_session\<lparr>user_content := []\<rparr>"
    by (simp add: run_content_analysis_def)
  show ?thesis by (simp add: 1 2 3 4) (simp add: demo_session_def)
qed

lemma analyze_returns:
  "\<exists>r tr'. analyze_content_with_openai E cfg t kw xs tr = (Inr r, tr')"
  by (auto simp: analyze_content_with_openai_def Let_def split: sum.splits option.splits)

text \<open>
  C9, amended. A run that reaches the analyzer (the content is not empty, the search
  gives at least one URL) stores what the analyzer returned for the content, the keyword
  and one summary per URL; the stored value does not depend on what was stored before.
  A run that ends early, because the content is empty or the search gives no URL or
  raises, leaves the session state, and with it any stored result, as it was.
\<close>

theorem result_replaced_on_completion:
  "(user_content ss = [] \<longrightarrow> fst (run_content_analysis E cfg ss tr) = ss)
 \<and> (fst (fetch_top_urls E cfg (keyword ss) (NUMBER_OF_SEARCHES cfg) (trace_at_search tr)) = Inr []
      \<longrightarrow> fst (run_content_analysis E cfg ss tr) = ss)
 \<and> (fst (fetch_top_urls E cfg (keyword ss) (NUMBER_OF_SEARCHES cfg) (trace_at_search tr)) = Inl e
      \<longrightarrow> fst (run_content_analysis E cfg ss tr) = ss)
 \<and> (user_content ss \<noteq> []
      \<and> fst (fetch_top_urls E cfg (keyword ss) (NUMBER_OF_SEARCHES cfg) (trace_at_search tr))
          = Inr urls
      \<and> urls \<noteq> []
      \<longrightarrow> (\<exists>r xs tr'.
             length xs = length urls
           \<and> fst (analyze_content_with_openai E cfg (user_content ss) (keyword ss) xs tr') = Inr r
           \<and> (\<forall>prior. fst (run_content_analysis E cfg (ss\<lparr>result := prior\<rparr>) tr)
                         = ss\<lparr>result := Some r\<rparr>)))"
proof -
  have 1: "user_content ss = [] \<longrightarrow> fst (run_content_analysis E cfg ss tr) = ss"
    by (simp add: run_content_analysis_def)
  have 2: "fst (fetch_top_urls E cfg (keyword ss) (NUMBER_OF_SEARCHES cfg) (trace_at_search tr)) = Inr []
      \<longrightarrow> fst (run_content_analysis E cfg ss tr) = ss"
    using 1 run_no_urls by blast
  have 3: "fst (fetch_top_urls E cfg (keyword ss) (NUMBER_OF_SEARCHES cfg) (trace_at_search tr)) = Inl e
      \<longrightarrow> fst (run_content_analysis E cfg ss tr) = ss"
    using 1 run_raised by blast
  have 4: "\<exists>r xs tr'.
             length xs = length urls
           \<and> fst (analyze_content_with_openai E cfg (user_content ss) (keyword ss) xs tr') = Inr r
           \<and> (\<forall>prior. fst (run_content_analysis E cfg (ss\<lparr>result := prior\<rparr>) tr)
                         = ss\<lparr>result := Some r\<rparr>)"
    if c: "user_content ss \<noteq> []"
    and f: "fst (fetch_top_urls E cfg (keyword ss) (NUMBER_OF_SEARCHES cfg) (trace_at_search tr))
              = Inr urls"
    and u: "urls \<noteq> []"
  proof -
    obtain tr1 where f': "fetch_top_urls E cfg (keyword ss) (NUMBER_OF_SEARCHES cfg)
                            (trace_at_search tr) = (Inr urls, tr1)"
      using f by (cases "fetch_top_urls E cfg (keyword ss) (NUMBER_OF_SEARCHES cfg)
                           (trace_at_search tr)") simp
    define tr2 where "tr2 = tr1 @ map (\<lambda>u. Ui (Write_url u)) urls
                             @ [Ui (Status_update (lit ''Analyzing Competitor Content'') St_running),
                                Ui (Progress_new 0)]"
    obtain xs tr3 where g: "get_competitor_summaries E cfg urls tr2 = (xs, tr3)"
      by (cases "get_competitor_summaries E cfg urls tr2")
    have lx: "length xs = length urls"
      using g loop_length[of E cfg "length urls" 1 urls "[]" tr2]
      by (simp add: get_competitor_summaries_def)
    define tr4 where "tr4 = tr3 @ [Ui (Status_update (lit ''Generating Optimization Suggestions'')
                                         St_running)]"
    obtain r tr5 where a: "analyze_content_with_openai E cfg (user_content ss) (keyword ss) xs tr4
                             = (Inr r, tr5)"
      using analyze_returns by blast
    have "fst (run_content_analysis E cfg (ss\<lparr>result := prior\<rparr>) tr) = ss\<lparr>result := Some r\<rparr>"
      for prior
      using c u f' g a
      by (simp add: run_content_analysis_def trace_at_search_def tr2_def tr4_def Let_def)
    with lx a show ?thesis by (metis fst_conv)
  qed
  from 1 2 3 4 show ?thesis by blast
qed

lemma demo_search_laptops:
  "fst (fetch_top_urls demo_world demo_config (lit ''best laptops 2024'') 3 tr) = Inr demo_urls"
  by (simp add: fetch_top_urls_def py_strip_empty_iff is_space_def demo_world_def demo_http_def
                demo_config_def ok_response_def raise_for_status_def dict_get_def demo_payload_def
                iterate_positions_def demo_urls_def url_a_def url_b_def url_c_def lit_def)

lemma demo_analyze:
  "t \<noteq> [] \<Longrightarrow> py_strip t \<noteq> []
   \<Longrightarrow> fst (analyze_content_with_openai demo_world cfg t kw xs tr)
       = Inr (StreamResult (Stream [lit ''Looks '', lit ''good.'']))"
  by (simp add: analyze_content_with_openai_def demo_world_def)

theorem result_replaced_on_completion_witness:
  "fst (run_content_analysis demo_world demo_config (demo_session\<lparr>user_content := []\<rparr>) [])
     = demo_session\<lparr>user_content := []\<rparr>
 \<and> fst (run_content_analysis demo_world demo_config
          (demo_session\<lparr>keyword := lit ''nothing''\<rparr>) [])
     = demo_session\<lparr>keyword := lit ''nothing''\<rparr>
 \<and> fst (run_content_analysis demo_world demo_config
          (demo_session\<lparr>keyword := lit ''broken''\<rparr>) [])
     = demo_session\<lparr>keyword := lit ''broken''\<rparr>
 \<and> fst (run_content_analysis demo_world demo_config
          (demo_session\<lparr>result := Some stale_report\<rparr>) [])
     = demo_session\<lparr>result := Some (StreamResult (Stream [lit ''Looks '', lit ''good.'']))\<rparr>"
proof -
  have n: "NUMBER_OF_SEARCHES demo_config = 3" by (simp add: demo_config_def)
  have k: "keyword demo_session = lit ''best laptops 2024''" by (simp add: demo_session_def)
  have c: "user_content demo_session \<noteq> [] \<and> py_strip (user_content demo_session) \<noteq> []"
    by (simp add: demo_session_def py_strip_empty_iff is_space_def lit_def)
  have u: "demo_urls \<noteq> []" by (simp add: demo_urls_def)
  obtain e where e: "fst (fetch_top_urls demo_world demo_config (lit ''broken'') 3
                            (trace_at_search [])) = Inl e"
    using demo_search_broken by blast
  from result_replaced_on_completion[of "demo_session\<lparr>user_content := []\<rparr>"
         demo_world demo_config "[]"]
  have 1: "fst (run_content_analysis demo_world demo_config (demo_session\<lparr>user_content := []\<rparr>) [])
             = demo_session\<lparr>user_content := []\<rparr>"
    by simp
  from result_replaced_on_completion[of "demo_session\<lparr>keyword := lit ''nothing''\<rparr>"
         demo_world demo_config "[]"]
       n demo_search_nothing
  have 2: "fst (run_content_analysis demo_world demo_config
                  (demo_session\<lparr>keyword := lit ''nothing''\<rparr>) [])
             = demo_session\<lparr>keyword := lit ''nothing''\<rparr>"
    by simp
  from result_replaced_on_completion[of "demo_session\<lparr>keyword := lit ''broken''\<rparr>"
         demo_world demo_config "[]" e]
       n e
  have 3: "fst (run_content_analysis demo_world demo_config
                  (demo_session\<lparr>keyword := lit ''broken''\<rparr>) [])
             = demo_session\<lparr>keyword := lit ''broken''\<rparr>"
    by simp
  from result_replaced_on_completion[of demo_session demo_world demo_config "[]" _ demo_urls]
       n k c u demo_search_laptops
  obtain r xs tr' where
    a: "fst (analyze_content_with_openai demo_world demo_config (user_content demo_session)
               (keyword demo_session) xs tr') = Inr r"
    and p: "\<forall>prior. fst (run_content_analysis demo_world demo_config
                            (demo_session\<lparr>result := prior\<rparr>) [])
                     = demo_session\<lparr>result := Some r\<rparr>"
    by auto
  from a c demo_analyze
  have "r = StreamResult (Stream [lit ''Looks '', lit ''good.''])" by simp
  with p have 4: "fst (run_content_analysis demo_world demo_config
                         (demo_session\<lparr>result := Some stale_report\<rparr>) [])
     = demo_session\<lparr>result := Some (StreamResult (Stream [lit ''Looks '', lit ''good.'']))\<rparr>"
    by simp
  from 1 2 3 4 show ?thesis by blast
qed

subsection \<open>Floating point rounding and the progress value\<close>

lemma rhe_range: "\<lfloor>x\<rfloor> \<le> round_half_even x \<and> round_half_even x \<le> \<lfloor>x\<rfloor> + 1"
  by (simp add: round_half_even_def Let_def)

lemma rhe_mono: "x \<le> y \<Longrightarrow> round_half_even x \<le> round_half_even y"
proof -
  assume xy: "x \<le> y"
  then have f: "\<lfloor>x\<rfloor> \<le> \<lfloor>y\<rfloor>" by (rule floor_mono)
  show ?thesis
  proof (cases "\<lfloor>x\<rfloor> = \<lfloor>y\<rfloor>")
    case True
    with xy show ?thesis by (auto simp: round_half_even_def Let_def)
  next
    case False
    with f have "\<lfloor>x\<rfloor> + 1 \<le> \<lfloor>y\<rfloor>" by simp
    with rhe_range[of x] rhe_range[of y] show ?thesis by linarith
  qed
qed

lemma rhe_of_int: "round_half_even (of_int n) = n"
  by (simp add: round_half_even_def)

lemma rhe_nonneg: "0 \<le> x \<Longrightarrow> 0 \<le> round_half_even x"
  using rhe_mono[of 0 x] rhe_of_int[of 0] by simp

lemma ilog2_bounds:
  assumes "0 < x"
  shows "2 powi (ilog2 x) \<le> x \<and> x < 2 powi (ilog2 x + 1)"
proof (cases "1 \<le> x")
  case True
  define n where "n = \<lfloor>x\<rfloor>"
  have n1: "1 \<le> n" using True by (simp add: n_def le_floor_iff)
  then have n0: "0 < n" by simp
  have b1: "1 \<le> bitlen n" using n0 by (simp add: bitlen_alt_def)
  from bitlen_bounds[OF n0] have lo: "2 ^ nat (bitlen n - 1) \<le> n" and hi: "n < 2 ^ nat (bitlen n)"
    by auto
  have k: "ilog2 x = bitlen n - 1" using True by (simp add: ilog2_def n_def)
  have p1: "(2::rat) powi (bitlen n - 1) = 2 ^ nat (bitlen n - 1)"
    using b1 by (simp add: power_int_def)
  have p2: "(2::rat) powi (ilog2 x + 1) = 2 ^ nat (bitlen n)"
    using b1 by (simp add: k power_int_def)
  have "(2::rat) ^ nat (bitlen n - 1) \<le> of_int n"
    using lo by (metis of_int_le_iff of_int_numeral of_int_power)
  also have "\<dots> \<le> x" unfolding n_def by linarith
  finally have A: "2 powi (ilog2 x) \<le> x" unfolding k p1 .
  have "n + 1 \<le> 2 ^ nat (bitlen n)" using hi by simp
  then have "(of_int (n + 1) :: rat) \<le> 2 ^ nat (bitlen n)"
    by (metis of_int_le_iff of_int_numeral of_int_power)
  moreover have "x < of_int (n + 1)" unfolding n_def by linarith
  ultimately have B: "x < 2 powi (ilog2 x + 1)" unfolding p2 by linarith
  from A B show ?thesis by simp
next
  case False
  then have x1: "x < 1" by simp
  define y where "y = 1 / x"
  define m where "m = \<lceil>y\<rceil>"
  have y1: "1 < y" using assms x1 by (simp add: y_def)
  have m2: "2 \<le> m" using y1 unfolding m_def by linarith
  then have m0: "0 < m - 1" by simp
  define b where "b = bitlen (m - 1)"
  have b1: "1 \<le> b" using m0 by (simp add: b_def bitlen_alt_def)
  from bitlen_bounds[OF m0] have lo: "2 ^ nat (b - 1) \<le> m - 1" and hi: "m - 1 < 2 ^ nat b"
    by (auto simp: b_def)
  have k: "ilog2 x = - b" using False by (simp add: ilog2_def b_def m_def y_def)
  have ym: "y \<le> of_int m" by (simp add: m_def)
  have my: "of_int (m - 1) < y" unfolding m_def by linarith
  have "m \<le> 2 ^ nat b" using hi by simp
  then have "(of_int m :: rat) \<le> 2 ^ nat b" by (metis of_int_le_iff of_int_numeral of_int_power)
  with ym have yb: "y \<le> 2 ^ nat b" by linarith
  have "(2::rat) ^ nat (b - 1) \<le> of_int (m - 1)"
    using lo by (metis of_int_le_iff of_int_numeral of_int_power)
  with my have by': "2 ^ nat (b - 1) < y" by linarith
  have xy: "x = 1 / y" using assms by (simp add: y_def)
  have p1: "(2::rat) powi (ilog2 x) = 1 / 2 ^ nat b"
    using b1 by (simp add: k power_int_def field_simps)
  have p2: "(2::rat) powi (ilog2 x + 1) = 1 / 2 ^ nat (b - 1)"
  proof (cases "b = 1")
    case True
    then show ?thesis by (simp add: k)
  next
    case False
    with b1 have "- b + 1 < 0" "nat (- (- b + 1)) = nat (b - 1)" by simp_all
    then show ?thesis by (simp add: k power_int_def field_simps)
  qed
  have y0: "0 < y" using y1 by simp
  have "1 / 2 ^ nat b \<le> 1 / y" using yb y0 by (simp add: frac_le)
  then have "1 / 2 ^ nat b \<le> x" by (simp only: xy)
  then have A: "2 powi (ilog2 x) \<le> x" by (simp only: p1)
  have "1 / y < 1 / 2 ^ nat (b - 1)" using by' by (simp add: frac_less2)
  then have "x < 1 / 2 ^ nat (b - 1)" by (simp only: xy)
  then have B: "x < 2 powi (ilog2 x + 1)" by (simp only: p2)
  from A B show ?thesis by simp
qed

lemma ilog2_mono:
  assumes "0 < x" "x \<le> y"
  shows "ilog2 x \<le> ilog2 y"
proof (rule ccontr)
  assume "\<not> ilog2 x \<le> ilog2 y"
  then have "ilog2 y + 1 \<le> ilog2 x" by simp
  then have "(2::rat) powi (ilog2 y + 1) \<le> 2 powi (ilog2 x)"
    by (rule power_int_increasing) simp
  also have "\<dots> \<le> x" using ilog2_bounds[OF assms(1)] by simp
  also have "\<dots> \<le> y" by (rule assms(2))
  finally show False using ilog2_bounds[of y] assms by simp
qed

lemma round64_pos:
  "0 < x \<Longrightarrow>
   round64 x = of_int (round_half_even (x / 2 powi (max (ilog2 x - 52) (- 1074))))
                 * 2 powi (max (ilog2 x - 52) (- 1074))"
  by (simp add: round64_def Let_def)

lemma round64_nonneg:
  assumes "0 \<le> x"
  shows "0 \<le> round64 x"
proof (cases "x = 0")
  case True
  then show ?thesis by (simp add: round64_def)
next
  case False
  with assms have x: "0 < x" by simp
  have "0 \<le> x / 2 powi (max (ilog2 x - 52) (- 1074))" using x by simp
  then have "0 \<le> round_half_even (x / 2 powi (max (ilog2 x - 52) (- 1074)))"
    by (rule rhe_nonneg)
  then show ?thesis unfolding round64_pos[OF x] by simp
qed

lemma round64_mono:
  assumes "0 \<le> x" "x \<le> y"
  shows "round64 x \<le> round64 y"
proof (cases "x = 0")
  case True
  with assms round64_nonneg[of y] show ?thesis by (simp add: round64_def)
next
  case False
  with assms have x: "0 < x" and y: "0 < y" by simp_all
  define ex where "ex = max (ilog2 x - 52) (- 1074)"
  define ey where "ey = max (ilog2 y - 52) (- 1074)"
  have rx: "round64 x = of_int (round_half_even (x / 2 powi ex)) * 2 powi ex"
    unfolding ex_def by (rule round64_pos[OF x])
  have ry: "round64 y = of_int (round_half_even (y / 2 powi ey)) * 2 powi ey"
    unfolding ey_def by (rule round64_pos[OF y])
  have le: "ex \<le> ey" using ilog2_mono[OF x assms(2)] by (simp add: ex_def ey_def)
  show ?thesis
  proof (cases "ex = ey")
    case True
    have "x / 2 powi ey \<le> y / 2 powi ey" using assms(2) by (simp add: divide_right_mono)
    then have "round_half_even (x / 2 powi ey) \<le> round_half_even (y / 2 powi ey)"
      by (rule rhe_mono)
    then have "(of_int (round_half_even (x / 2 powi ey)) :: rat) * 2 powi ey
                 \<le> of_int (round_half_even (y / 2 powi ey)) * 2 powi ey"
      by (simp add: mult_right_mono)
    then show ?thesis by (simp add: rx ry True)
  next
    case False
    with le have lt: "ex + 1 \<le> ey" by simp
    then have eyn: "ey = ilog2 y - 52" by (simp add: ey_def ex_def)
    have py: "(0::rat) < 2 powi ey" and px: "(0::rat) < 2 powi ex" by simp_all
    \<comment> \<open>the larger argument rounds to at least \<open>2^52\<close> units of its exponent\<close>
    have "(2::rat) powi ey * 2 ^ 52 = 2 powi (ey + 52)" by (simp add: power_int_add)
    also have "\<dots> = 2 powi (ilog2 y)" by (simp add: eyn)
    also have "\<dots> \<le> y" using ilog2_bounds[OF y] by simp
    finally have "(2::rat) ^ 52 \<le> y / 2 powi ey"
      using py by (simp add: pos_le_divide_eq mult.commute)
    then have "of_int (2 ^ 52) \<le> y / 2 powi ey" by simp
    then have "round_half_even (of_int (2 ^ 52)) \<le> round_half_even (y / 2 powi ey)"
      by (rule rhe_mono)
    then have "2 ^ 52 \<le> round_half_even (y / 2 powi ey)" by (simp only: rhe_of_int)
    then have "(of_int (2 ^ 52) :: rat) \<le> of_int (round_half_even (y / 2 powi ey))"
      by (simp only: of_int_le_iff)
    then have "(of_int (2 ^ 52) :: rat) * 2 powi ey \<le> round64 y"
      unfolding ry using py by (simp only: mult_right_mono less_imp_le)
    then have Y: "(2::rat) ^ 52 * 2 powi ey \<le> round64 y" by simp
    \<comment> \<open>the smaller argument rounds to at most \<open>2^53\<close> units of its exponent\<close>
    have "ilog2 x + 1 \<le> ex + 53" by (simp add: ex_def)
    then have "(2::rat) powi (ilog2 x + 1) \<le> 2 powi (ex + 53)"
      by (rule power_int_increasing) simp
    also have "\<dots> = 2 powi ex * 2 ^ 53" by (simp add: power_int_add)
    finally have "x \<le> 2 powi ex * 2 ^ 53" using ilog2_bounds[OF x] by simp
    then have "x / 2 powi ex \<le> 2 ^ 53" using px by (simp add: pos_divide_le_eq mult.commute)
    then have "x / 2 powi ex \<le> of_int (2 ^ 53)" by simp
    then have "round_half_even (x / 2 powi ex) \<le> round_half_even (of_int (2 ^ 53))"
      by (rule rhe_mono)
    then have "round_half_even (x / 2 powi ex) \<le> 2 ^ 53" by (simp only: rhe_of_int)
    then have "(of_int (round_half_even (x / 2 powi ex)) :: rat) \<le> of_int (2 ^ 53)"
      by (simp only: of_int_le_iff)
    then have "round64 x \<le> of_int (2 ^ 53) * 2 powi ex"
      unfolding rx using px by (simp only: mult_right_mono less_imp_le)
    then have "round64 x \<le> 2 ^ 52 * (2 powi ex * 2)" by simp
    also have "2 powi ex * 2 = (2::rat) powi (ex + 1)" by (simp add: power_int_add)
    also have "(2::rat) ^ 52 * 2 powi (ex + 1) \<le> 2 ^ 52 * 2 powi ey"
      using power_int_increasing[OF lt, of "2::rat"] by simp
    finally have X: "round64 x \<le> 2 ^ 52 * 2 powi ey" .
    from X Y show ?thesis by linarith
  qed
qed

lemma py_int_nonneg: "0 \<le> x \<Longrightarrow> 0 \<le> py_int x"
  by (simp add: py_int_def)

lemma py_int_mono: "0 \<le> x \<Longrightarrow> x \<le> y \<Longrightarrow> py_int x \<le> py_int y"
  by (simp add: py_int_def floor_mono)

lemma progress_percent_lower: "25 \<le> progress_percent T i"
proof -
  have "0 \<le> round64 (50 / of_nat T)" by (rule round64_nonneg) simp
  moreover have "0 \<le> round64 (of_nat i)" by (rule round64_nonneg) simp
  ultimately have "0 \<le> round64 (50 / of_nat T) * round64 (of_nat i)"
    by (rule mult_nonneg_nonneg)
  then have "0 \<le> round64 (round64 (50 / of_nat T) * round64 (of_nat i))"
    by (rule round64_nonneg)
  then show ?thesis by (simp add: progress_percent_def py_int_nonneg)
qed

lemma progress_percent_mono:
  assumes "i \<le> j"
  shows "progress_percent T i \<le> progress_percent T j"
proof -
  have c: "0 \<le> round64 (50 / of_nat T)" by (rule round64_nonneg) simp
  have a: "0 \<le> round64 (of_nat i)" by (rule round64_nonneg) simp
  have "round64 (of_nat i) \<le> round64 (of_nat j)"
    by (rule round64_mono) (use assms in simp_all)
  then have m: "round64 (50 / of_nat T) * round64 (of_nat i)
                  \<le> round64 (50 / of_nat T) * round64 (of_nat j)"
    using c by (rule mult_left_mono)
  have n: "0 \<le> round64 (50 / of_nat T) * round64 (of_nat i)"
    using c a by (rule mult_nonneg_nonneg)
  have "round64 (round64 (50 / of_nat T) * round64 (of_nat i))
          \<le> round64 (round64 (50 / of_nat T) * round64 (of_nat j))"
    using n m by (rule round64_mono)
  moreover have "0 \<le> round64 (round64 (50 / of_nat T) * round64 (of_nat i))"
    using n by (rule round64_nonneg)
  ultimately show ?thesis by (simp add: progress_percent_def py_int_mono)
qed

text \<open>Only \<open>get_competitor_summaries\<close> itself touches the progress bar.\<close>

lemma progress_values_append [simp]:
  "progress_values (a @ b) = progress_values a @ progress_values b"
  by (simp add: progress_values_def)

lemma progress_values_single [simp]:
  "progress_values [Log l m] = []" "progress_values [Ui w] = []"
  "progress_values [NetCall r] = []" "progress_values [Progress p] = [p]"
  "progress_values [] = []"
  by (simp_all add: progress_values_def)

lemma progress_values_Cons_other [simp]:
  "progress_values (Log l m # tr) = progress_values tr"
  "progress_values (Ui w # tr) = progress_values tr"
  "progress_values (NetCall r # tr) = progress_values tr"
  "progress_values (Progress p # tr) = p # progress_values tr"
  by (simp_all add: progress_values_def)

lemma fetch_no_progress:
  "progress_values (snd (fetch_webpage_content E u tr)) = progress_values tr"
  by (auto simp: fetch_webpage_content_def page_except_def Let_def
           split: json.splits sum.splits option.splits exn.splits)

lemma summarize_no_progress:
  "progress_values (snd (summarize_content_with_openai E cfg c tr)) = progress_values tr"
  by (auto simp: summarize_content_with_openai_def summary_except_def Let_def
           split: sum.splits option.splits list.splits)

lemma process_url_progress:
  "progress_values (snd (process_url E cfg T idx u tr)) = progress_values tr
 \<or> progress_values (snd (process_url E cfg T idx u tr))
     = progress_values tr @ [min (progress_percent T idx) 100]"
proof -
  let ?tr0 = "tr @ [Ui (Write_processing idx T u), Ui (Info_fetching idx)]"
  obtain r1 tr1 where f: "fetch_webpage_content E u ?tr0 = (r1, tr1)"
    by (cases "fetch_webpage_content E u ?tr0")
  have p1: "progress_values tr1 = progress_values tr"
    using fetch_no_progress[of E u ?tr0] f by simp
  show ?thesis
  proof (cases "\<exists>c. r1 = Inr (Some c) \<and> c \<noteq> []")
    case False
    with f p1 show ?thesis
      by (auto simp: process_url_def report_progress_def Let_def
               split: sum.splits option.splits)
  next
    case True
    then obtain c where c: "r1 = Inr (Some c)" "c \<noteq> []" by blast
    obtain r2 tr2 where s: "summarize_content_with_openai E cfg c
                              (tr1 @ [Ui (Info_summarizing idx)]) = (r2, tr2)"
      by (cases "summarize_content_with_openai E cfg c (tr1 @ [Ui (Info_summarizing idx)])")
    have p2: "progress_values tr2 = progress_values tr"
      using summarize_no_progress[of E cfg c "tr1 @ [Ui (Info_summarizing idx)]"] s p1 by simp
    from f c s p2 show ?thesis
      by (auto simp: process_url_def report_progress_def Let_def
               split: sum.splits option.splits)
  qed
qed

lemma loop_progress:
  "\<exists>sub. progress_values (snd (summaries_loop E cfg T idx us acc tr)) = progress_values tr @ sub
        \<and> subseq sub (map (\<lambda>i. min (progress_percent T i) 100) [idx..<idx + length us])"
proof (induction us arbitrary: idx acc tr)
  case Nil
  show ?case by simp
next
  case (Cons u us)
  obtain s tr' where p: "process_url E cfg T idx u tr = (s, tr')"
    by (cases "process_url E cfg T idx u tr")
  define later where
    "later = map (\<lambda>i. min (progress_percent T i) 100) [Suc idx..<Suc idx + length us]"
  from Cons.IH[of "Suc idx" "acc @ [s]" tr'] obtain sub where
    sub: "progress_values (snd (summaries_loop E cfg T (Suc idx) us (acc @ [s]) tr'))
            = progress_values tr' @ sub"
    and emb: "subseq sub later"
    unfolding later_def by blast
  have "[idx..<idx + length (u # us)] = idx # [Suc idx..<Suc idx + length us]"
    by (subst upt_conv_Cons) simp_all
  then have all: "map (\<lambda>i. min (progress_percent T i) 100) [idx..<idx + length (u # us)]
                    = min (progress_percent T idx) 100 # later"
    by (simp only: later_def list.map)
  have step: "snd (summaries_loop E cfg T idx (u # us) acc tr)
                = snd (summaries_loop E cfg T (Suc idx) us (acc @ [s]) tr')"
    using p by simp
  from process_url_progress[of E cfg T idx u tr] p
  consider "progress_values tr' = progress_values tr"
    | "progress_values tr' = progress_values tr @ [min (progress_percent T idx) 100]"
    by auto
  then show ?case
  proof cases
    case 1
    have "progress_values (snd (summaries_loop E cfg T idx (u # us) acc tr))
            = progress_values tr @ sub"
      by (simp only: step sub 1)
    moreover have "subseq sub (min (progress_percent T idx) 100 # later)"
      using emb by (rule list_emb_Cons)
    ultimately show ?thesis unfolding all by blast
  next
    case 2
    have "progress_values (snd (summaries_loop E cfg T idx (u # us) acc tr))
            = progress_values tr @ (min (progress_percent T idx) 100 # sub)"
      by (simp only: step sub 2) simp
    moreover have "subseq (min (progress_percent T idx) 100 # sub)
                     (min (progress_percent T idx) 100 # later)"
      using emb by (rule subseq_Cons2)
    ultimately show ?thesis unfolding all by blast
  qed
qed

lemma subseq_keeps_sorted: "subseq xs ys \<Longrightarrow> sorted ys \<Longrightarrow> sorted xs"
  for xs ys :: "int list"
  by (auto simp: subseq_conv_nths sorted_nths)

lemma subseq_in_set: "subseq xs ys \<Longrightarrow> set xs \<subseteq> set ys"
  by (auto simp: subseq_conv_nths dest: in_set_nthsD)

lemma sorted_progress_schedule: "sorted (progress_schedule T)"
proof -
  have "min (progress_percent T i) 100 \<le> min (progress_percent T j) 100" if "i \<le> j" for i j
    using progress_percent_mono[OF that, of T] by simp
  then show ?thesis
    unfolding progress_schedule_def
    by (auto simp: sorted_iff_nth_mono simp del: upt_Suc)
qed

lemma progress_schedule_range: "p \<in> set (progress_schedule T) \<Longrightarrow> 25 \<le> p \<and> p \<le> 100"
  using progress_percent_lower by (auto simp: progress_schedule_def simp del: upt_Suc)

text \<open>
  C5. The values \<open>min(25 + int((50 / T) * idx), 100)\<close> for \<open>idx = 1, ..., T\<close>, computed in
  binary64 arithmetic as Python does, never decrease and lie between 25 and 100. What a
  call of \<open>get_competitor_summaries\<close> reports to the progress bar is a subsequence of
  them, in their order (a URL whose fetch failed is passed with \<open>continue\<close>, without a
  report), so the reported sequence never decreases and stays between 25 and 100 too.
\<close>

theorem progress_monotone_and_bounded:
  "sorted (progress_schedule (length urls))
 \<and> (\<forall>p \<in> set (progress_schedule (length urls)). 25 \<le> p \<and> p \<le> 100)
 \<and> progress_values (snd (get_competitor_summaries E cfg urls tr))
     = progress_values tr @ reported_progress E cfg urls tr
 \<and> subseq (reported_progress E cfg urls tr) (progress_schedule (length urls))
 \<and> sorted (reported_progress E cfg urls tr)
 \<and> (\<forall>p \<in> set (reported_progress E cfg urls tr). 25 \<le> p \<and> p \<le> 100)"
proof -
  from loop_progress[of E cfg "length urls" 1 urls "[]" tr] obtain sub where
    sub: "progress_values (snd (get_competitor_summaries E cfg urls tr)) = progress_values tr @ sub"
    and emb: "subseq sub (progress_schedule (length urls))"
    by (auto simp: get_competitor_summaries_def progress_schedule_def)
  have r: "reported_progress E cfg urls tr = sub"
    by (simp add: reported_progress_def sub)
  have s: "sorted sub"
    using emb sorted_progress_schedule by (rule subseq_keeps_sorted)
  have "set sub \<subseteq> set (progress_schedule (length urls))"
    using emb by (rule subseq_in_set)
  then have b: "\<forall>p \<in> set sub. 25 \<le> p \<and> p \<le> 100"
    using progress_schedule_range by blast
  from sub emb s b show ?thesis
    by (simp add: r sorted_progress_schedule) (use progress_schedule_range in blast)
qed

text \<open>The concrete world: three URLs, the second of which cannot be fetched.\<close>

lemma demo_fetch_c:
  "fetch_webpage_content demo_world (JStr url_c) tr
     = (Inr (Some long_text), tr @ [NetCall (PageGet url_c)])"
  by (simp add: fetch_webpage_content_def demo_defs run_defs)

lemma demo_fetch_b_trace:
  "fetch_webpage_content demo_world (JStr url_b) tr
     = (Inr None, tr @ [NetCall (PageGet url_b),
                        Log ERROR (lit ''Webpage Fetch Error: '' @ lit ''timed out'')])"
  by (simp add: fetch_webpage_content_def demo_defs run_defs page_except_def)

lemma demo_values:
  "progress_percent 3 (Suc 0) = 41 \<and> progress_percent 3 (Suc (Suc 0)) = 58
 \<and> progress_percent 3 (Suc (Suc (Suc 0))) = 75"
  by code_simp

lemma demo_schedule: "progress_schedule 3 = [41, 58, 75]"
  by code_simp

lemma demo_length: "length demo_urls = 3"
  by (simp add: demo_urls_def)

lemma digest_nonempty: "lit ''A digest.'' \<noteq> []"
  by (simp add: lit_def)

lemma demo_loop:
  "progress_values (snd (summaries_loop demo_world demo_config 3 (Suc 0) demo_urls [] []))
     = [41, 75]"
  using demo_values long_text_nonblank digest_nonempty
  by (simp add: demo_urls_def process_url_def Let_def
                demo_fetch_a demo_fetch_c demo_fetch_b_trace demo_summarize report_progress_def)

lemma demo_reported: "reported_progress demo_world demo_config demo_urls [] = [41, 75]"
  by (simp add: reported_progress_def get_competitor_summaries_def demo_length demo_loop)

theorem progress_monotone_and_bounded_witness:
  "progress_schedule (length demo_urls) = [41, 58, 75]
 \<and> reported_progress demo_world demo_config demo_urls [] = [41, 75]
 \<and> sorted (reported_progress demo_world demo_config demo_urls [])
 \<and> subseq (reported_progress demo_world demo_config demo_urls [])
       (progress_schedule (length demo_urls))
 \<and> 25 \<le> (41::int) \<and> (75::int) \<le> 100"
proof -
  note T = progress_monotone_and_bounded[of demo_urls demo_world demo_config "[]"]
  have m: "41 \<in> set (reported_progress demo_world demo_config demo_urls [])"
          "75 \<in> set (progress_schedule (length demo_urls))"
    by (simp_all add: demo_reported demo_schedule demo_length)
  from T m have "25 \<le> (41::int)" "(75::int) \<le> 100" by blast+
  moreover from T have "sorted (reported_progress demo_world demo_config demo_urls [])"
    and "subseq (reported_progress demo_world demo_config demo_urls [])
           (progress_schedule (length demo_urls))" by blast+
  ultimately show ?thesis by (simp add: demo_reported demo_schedule demo_length)
qed

end
